theory Spec2Isabelle
  imports Main "HOL-Library.Word"
begin

section \<open>Data read and written by app/syncables.go\<close>

text \<open>
  The file \<^verbatim>\<open>app/syncables.go\<close> holds three methods of \<^verbatim>\<open>App\<close>:
  \<^verbatim>\<open>CreateDefaultMemberships\<close>, \<^verbatim>\<open>DeleteGroupConstrainedMemberships\<close> and
  \<^verbatim>\<open>SyncSyncableRoles\<close>. Each is a sequential pipeline of calls to collaborators
  (other methods of \<^verbatim>\<open>App\<close> and of the store) interleaved with log entries. The
  collaborators are not part of the file, so the embedding takes them as the fields of
  a record \<open>'w App\<close> over an arbitrary world \<open>'w\<close> (the persistence layer's state):
  every theorem that is stated for an arbitrary \<open>a :: 'w App\<close> holds for every
  behaviour of the collaborators.

  The types below belong to package \<^verbatim>\<open>model\<close>; only the fields that the
  three methods read are kept. Field names carry a prefix because two records of one
  theory cannot share a field name.
\<close>

text \<open>
  \<^verbatim>\<open>model.GroupSyncableType\<close> is a string type with two declared constants; the
  \<^verbatim>\<open>switch\<close> of \<^verbatim>\<open>SyncSyncableRoles\<close> tells them from every other value.
  \<open>GroupSyncableTypeOther v\<close> stands for a value \<open>v\<close> that is neither constant.
\<close>

datatype GroupSyncableType =
    GroupSyncableTypeTeam
  | GroupSyncableTypeChannel
  | GroupSyncableTypeOther string

text \<open>\<^verbatim>\<open>store.Equality\<close>: the mode of a bulk role update.\<close>

datatype Equality = Equals | NotEquals

text \<open>
  \<^verbatim>\<open>*model.AppError\<close>, with the five arguments of \<^verbatim>\<open>model.NewAppError\<close>:
  where, id, params, details, status.
\<close>

record AppError =
  er_Where :: string
  er_Id :: string
  er_Params :: "(string \<times> GroupSyncableType) list"
  er_DetailedError :: string
  er_StatusCode :: int

definition NewAppError ::
  "string \<Rightarrow> string \<Rightarrow> (string \<times> GroupSyncableType) list \<Rightarrow> string \<Rightarrow> int \<Rightarrow> AppError" where
  "NewAppError wh i params details status =
     \<lparr>er_Where = wh, er_Id = i, er_Params = params, er_DetailedError = details,
      er_StatusCode = status\<rparr>"

text \<open>\<^verbatim>\<open>http.StatusInternalServerError\<close>.\<close>

definition StatusInternalServerError :: int where
  "StatusInternalServerError = 500"

record UserTeamIDPair =
  ut_UserID :: string
  ut_TeamID :: string

record UserChannelIDPair =
  uc_UserID :: string
  uc_ChannelID :: string

record Channel =
  ch_Id :: string
  ch_TeamId :: string

record TeamMember =
  tm_TeamId :: string
  tm_UserId :: string

record ChannelMember =
  cm_ChannelId :: string
  cm_UserId :: string

subsection \<open>The observable behaviour: collaborator calls and log entries\<close>

text \<open>
  A log entry keeps the arguments of \<^verbatim>\<open>a.Log.Info\<close> as they are written:
  a literal, \<^verbatim>\<open>fmt.Sprintf\<close> of a format and a syncable type, or
  \<^verbatim>\<open>strings.ToLower\<close> of such a text; a field is \<^verbatim>\<open>mlog.String\<close> or
  \<^verbatim>\<open>mlog.Any\<close> (of the permitted-admins list).
\<close>

datatype log_text =
    Text string
  | Sprintf string GroupSyncableType
  | ToLower log_text

datatype log_field =
    mlog_String log_text string
  | mlog_Any log_text "string list"

text \<open>One constructor per collaborator the file calls, with the call's arguments.\<close>

datatype call =
    CallTeamMembersToAdd "64 word"
  | CallAddTeamMember string string
  | CallChannelMembersToAdd "64 word"
  | CallGetChannel string
  | CallGetTeamMember string string
  | CallAddChannelMember string Channel string string
  | CallChannelMembersToRemove
  | CallRemoveUserFromChannel string string Channel
  | CallTeamMembersToRemove
  | CallRemoveUserFromTeam string string string
  | CallPermittedSyncableAdmins string GroupSyncableType
  | CallTeamUpdateMembersRole string "string list" Equality bool
  | CallChannelUpdateMembersRole string "string list" Equality bool

datatype event = Call call | LogInfo log_text "log_field list"

text \<open>
  The collaborators. A Go result \<^verbatim>\<open>(value, *AppError)\<close> whose value is used only
  when the error is nil is a sum; one whose value is discarded (\<^verbatim>\<open>_, err :=\<close>) is
  the error alone; \<^verbatim>\<open>GetTeamMember\<close> returns both parts, because the code tests
  \<^verbatim>\<open>err\<close> and \<^verbatim>\<open>tmem == nil\<close> independently. Every collaborator may change
  the world, also when it fails. The last three fields are
  \<^verbatim>\<open>a.Srv.Store.Group().PermittedSyncableAdmins\<close>,
  \<^verbatim>\<open>a.Srv.Store.Team().UpdateMembersRole\<close> and
  \<^verbatim>\<open>a.Srv.Store.Channel().UpdateMembersRole\<close>; the others are methods of
  \<^verbatim>\<open>App\<close>.
\<close>

record 'w App =
  TeamMembersToAdd :: "64 word \<Rightarrow> 'w \<Rightarrow> (AppError + UserTeamIDPair list) \<times> 'w"
  AddTeamMember :: "string \<Rightarrow> string \<Rightarrow> 'w \<Rightarrow> AppError option \<times> 'w"
  ChannelMembersToAdd :: "64 word \<Rightarrow> 'w \<Rightarrow> (AppError + UserChannelIDPair list) \<times> 'w"
  GetChannel :: "string \<Rightarrow> 'w \<Rightarrow> (AppError + Channel) \<times> 'w"
  GetTeamMember :: "string \<Rightarrow> string \<Rightarrow> 'w \<Rightarrow> (TeamMember option \<times> AppError option) \<times> 'w"
  AddChannelMember :: "string \<Rightarrow> Channel \<Rightarrow> string \<Rightarrow> string \<Rightarrow> 'w \<Rightarrow> AppError option \<times> 'w"
  ChannelMembersToRemove :: "'w \<Rightarrow> (AppError + ChannelMember list) \<times> 'w"
  RemoveUserFromChannel :: "string \<Rightarrow> string \<Rightarrow> Channel \<Rightarrow> 'w \<Rightarrow> AppError option \<times> 'w"
  TeamMembersToRemove :: "'w \<Rightarrow> (AppError + TeamMember list) \<times> 'w"
  RemoveUserFromTeam :: "string \<Rightarrow> string \<Rightarrow> string \<Rightarrow> 'w \<Rightarrow> AppError option \<times> 'w"
  PermittedSyncableAdmins :: "string \<Rightarrow> GroupSyncableType \<Rightarrow> 'w \<Rightarrow> (AppError + string list) \<times> 'w"
  Team_UpdateMembersRole :: "string \<Rightarrow> string list \<Rightarrow> Equality \<Rightarrow> bool \<Rightarrow> 'w \<Rightarrow> AppError option \<times> 'w"
  Channel_UpdateMembersRole :: "string \<Rightarrow> string list \<Rightarrow> Equality \<Rightarrow> bool \<Rightarrow> 'w \<Rightarrow> AppError option \<times> 'w"

text \<open>
  The state of a run: the world the collaborators act on, and the trace of what the
  method has done so far, oldest event first.
\<close>

record 'w run =
  world :: 'w
  trace :: "event list"

text \<open>Calling a collaborator records the call, then runs it on the world.\<close>

definition invoke :: "call \<Rightarrow> ('w \<Rightarrow> 'r \<times> 'w) \<Rightarrow> 'w run \<Rightarrow> 'r \<times> 'w run" where
  "invoke c f s =
     (case f (world s) of (r, w') \<Rightarrow> (r, \<lparr>world = w', trace = trace s @ [Call c]\<rparr>))"

text \<open>\<^verbatim>\<open>a.Log.Info(msg, fields...)\<close> appends its entry to the trace.\<close>

definition emit :: "event \<Rightarrow> 'w run \<Rightarrow> 'w run" where
  "emit e s = \<lparr>world = world s, trace = trace s @ [e]\<rparr>"

section \<open>CreateDefaultMemberships\<close>

text \<open>The log entries of the method (lines 30-33 and 58-61, 68-71, 77-80).\<close>

definition added_teammember :: "string \<Rightarrow> string \<Rightarrow> event" where
  "added_teammember user_id team_id =
     LogInfo (Text ''added teammember'')
       [mlog_String (Text ''user_id'') user_id, mlog_String (Text ''team_id'') team_id]"

definition not_adding_user :: "string \<Rightarrow> string \<Rightarrow> event" where
  "not_adding_user user_id channel_id =
     LogInfo (Text ''Not adding user to channel because they have already left the team'')
       [mlog_String (Text ''user_id'') user_id, mlog_String (Text ''channel_id'') channel_id]"

definition added_channelmember :: "string \<Rightarrow> string \<Rightarrow> event" where
  "added_channelmember user_id channel_id =
     LogInfo (Text ''added channelmember'')
       [mlog_String (Text ''user_id'') user_id, mlog_String (Text ''channel_id'') channel_id]"

text \<open>
  The first loop (lines 24-34): one \<^verbatim>\<open>AddTeamMember\<close> per pair; the first error is
  returned at once, otherwise the addition is logged.
\<close>

fun teamMembersLoop ::
  "'w App \<Rightarrow> UserTeamIDPair list \<Rightarrow> 'w run \<Rightarrow> AppError option \<times> 'w run" where
  "teamMembersLoop a [] s = (None, s)"
| "teamMembersLoop a (userTeam # rest) s =
     (case invoke (CallAddTeamMember (ut_TeamID userTeam) (ut_UserID userTeam))
             (AddTeamMember a (ut_TeamID userTeam) (ut_UserID userTeam)) s of
        (Some err, s1) \<Rightarrow> (Some err, s1)
      | (None, s1) \<Rightarrow>
          teamMembersLoop a rest
            (emit (added_teammember (ut_UserID userTeam) (ut_TeamID userTeam)) s1))"

text \<open>
  Lines 53-63 of the second loop's body: \<^verbatim>\<open>if tmem == nil\<close>, add the user to the
  channel's team first.
\<close>

definition firstAddUserToTeam ::
  "'w App \<Rightarrow> UserChannelIDPair \<Rightarrow> Channel \<Rightarrow> TeamMember option \<Rightarrow> 'w run
     \<Rightarrow> AppError option \<times> 'w run" where
  "firstAddUserToTeam a userChannel channel tmem s =
     (case tmem of
        None \<Rightarrow>
          (case invoke (CallAddTeamMember (ch_TeamId channel) (uc_UserID userChannel))
                  (AddTeamMember a (ch_TeamId channel) (uc_UserID userChannel)) s of
             (Some err, s1) \<Rightarrow> (Some err, s1)
           | (None, s1) \<Rightarrow>
               (None, emit (added_teammember (uc_UserID userChannel) (ch_TeamId channel)) s1))
      | Some _ \<Rightarrow> (None, s))"

text \<open>
  Lines 42-63 of the body: resolve the channel, look the team membership up (the
  error \<^verbatim>\<open>store.sql_team.get_member.missing.app_error\<close> is let through), add the
  team membership when there is none. The result is the error that ends the method,
  or the channel for the rest of the body.
\<close>

definition teamMembershipFirst ::
  "'w App \<Rightarrow> UserChannelIDPair \<Rightarrow> 'w run \<Rightarrow> (AppError + Channel) \<times> 'w run" where
  "teamMembershipFirst a userChannel s =
     (case invoke (CallGetChannel (uc_ChannelID userChannel))
             (GetChannel a (uc_ChannelID userChannel)) s of
        (Inl err, s1) \<Rightarrow> (Inl err, s1)
      | (Inr channel, s1) \<Rightarrow>
          (case invoke (CallGetTeamMember (ch_TeamId channel) (uc_UserID userChannel))
                  (GetTeamMember a (ch_TeamId channel) (uc_UserID userChannel)) s1 of
             ((tmem, err), s2) \<Rightarrow>
               let proceed =
                 (case firstAddUserToTeam a userChannel channel tmem s2 of
                    (Some err', s3) \<Rightarrow> (Inl err', s3)
                  | (None, s3) \<Rightarrow> (Inr channel, s3))
               in (case err of
                     None \<Rightarrow> proceed
                   | Some e \<Rightarrow>
                       if er_Id e \<noteq> ''store.sql_team.get_member.missing.app_error''
                       then (Inl e, s2)
                       else proceed)))"

text \<open>
  Lines 65-81 of the body: \<^verbatim>\<open>AddChannelMember\<close>; the error
  \<^verbatim>\<open>api.channel.add_user.to.channel.failed.deleted.app_error\<close> is logged and does
  not end the method, any other error does; then the statement after the \<^verbatim>\<open>if\<close>
  logs the addition.
\<close>

definition addUserToChannel ::
  "'w App \<Rightarrow> UserChannelIDPair \<Rightarrow> Channel \<Rightarrow> 'w run \<Rightarrow> AppError option \<times> 'w run" where
  "addUserToChannel a userChannel channel s =
     (case invoke (CallAddChannelMember (uc_UserID userChannel) channel [] [])
             (AddChannelMember a (uc_UserID userChannel) channel [] []) s of
        (Some err, s1) \<Rightarrow>
          if er_Id err = ''api.channel.add_user.to.channel.failed.deleted.app_error''
          then (None,
                emit (added_channelmember (uc_UserID userChannel) (uc_ChannelID userChannel))
                  (emit (not_adding_user (uc_UserID userChannel) (uc_ChannelID userChannel)) s1))
          else (Some err, s1)
      | (None, s1) \<Rightarrow>
          (None,
           emit (added_channelmember (uc_UserID userChannel) (uc_ChannelID userChannel)) s1))"

text \<open>The body of the second loop (lines 42-81) for one pair.\<close>

definition channelMemberBody ::
  "'w App \<Rightarrow> UserChannelIDPair \<Rightarrow> 'w run \<Rightarrow> AppError option \<times> 'w run" where
  "channelMemberBody a userChannel s =
     (case teamMembershipFirst a userChannel s of
        (Inl err, s1) \<Rightarrow> (Some err, s1)
      | (Inr channel, s1) \<Rightarrow> addUserToChannel a userChannel channel s1)"

text \<open>The second loop (lines 41-82).\<close>

fun channelMembersLoop ::
  "'w App \<Rightarrow> UserChannelIDPair list \<Rightarrow> 'w run \<Rightarrow> AppError option \<times> 'w run" where
  "channelMembersLoop a [] s = (None, s)"
| "channelMembersLoop a (userChannel # rest) s =
     (case channelMemberBody a userChannel s of
        (Some err, s1) \<Rightarrow> (Some err, s1)
      | (None, s1) \<Rightarrow> channelMembersLoop a rest s1)"

text \<open>The method (lines 18-85): \<open>None\<close> is Go's \<^verbatim>\<open>return nil\<close>.\<close>

definition CreateDefaultMemberships ::
  "'w App \<Rightarrow> 64 word \<Rightarrow> 'w run \<Rightarrow> AppError option \<times> 'w run" where
  "CreateDefaultMemberships a since s =
     (case invoke (CallTeamMembersToAdd since) (TeamMembersToAdd a since) s of
        (Inl appErr, s1) \<Rightarrow> (Some appErr, s1)
      | (Inr teamMembers, s1) \<Rightarrow>
          (case teamMembersLoop a teamMembers s1 of
             (Some err, s2) \<Rightarrow> (Some err, s2)
           | (None, s2) \<Rightarrow>
               (case invoke (CallChannelMembersToAdd since) (ChannelMembersToAdd a since) s2 of
                  (Inl appErr, s3) \<Rightarrow> (Some appErr, s3)
                | (Inr channelMembers, s3) \<Rightarrow> channelMembersLoop a channelMembers s3)))"

section \<open>DeleteGroupConstrainedMemberships\<close>

definition removed_channelmember :: "string \<Rightarrow> string \<Rightarrow> event" where
  "removed_channelmember user_id channel_id =
     LogInfo (Text ''removed channelmember'')
       [mlog_String (Text ''user_id'') user_id, mlog_String (Text ''channel_id'') channel_id]"

definition removed_teammember :: "string \<Rightarrow> string \<Rightarrow> event" where
  "removed_teammember user_id team_id =
     LogInfo (Text ''removed teammember'')
       [mlog_String (Text ''user_id'') user_id, mlog_String (Text ''team_id'') team_id]"

text \<open>
  The first loop (lines 93-108): resolve the channel, remove the user from it, log the
  removal with the identifier of the channel that was resolved.
\<close>

fun removeChannelMembersLoop ::
  "'w App \<Rightarrow> ChannelMember list \<Rightarrow> 'w run \<Rightarrow> AppError option \<times> 'w run" where
  "removeChannelMembersLoop a [] s = (None, s)"
| "removeChannelMembersLoop a (userChannel # rest) s =
     (case invoke (CallGetChannel (cm_ChannelId userChannel))
             (GetChannel a (cm_ChannelId userChannel)) s of
        (Inl err, s1) \<Rightarrow> (Some err, s1)
      | (Inr channel, s1) \<Rightarrow>
          (case invoke (CallRemoveUserFromChannel (cm_UserId userChannel) [] channel)
                  (RemoveUserFromChannel a (cm_UserId userChannel) [] channel) s1 of
             (Some err, s2) \<Rightarrow> (Some err, s2)
           | (None, s2) \<Rightarrow>
               removeChannelMembersLoop a rest
                 (emit (removed_channelmember (cm_UserId userChannel) (ch_Id channel)) s2)))"

text \<open>The second loop (lines 115-125).\<close>

fun removeTeamMembersLoop ::
  "'w App \<Rightarrow> TeamMember list \<Rightarrow> 'w run \<Rightarrow> AppError option \<times> 'w run" where
  "removeTeamMembersLoop a [] s = (None, s)"
| "removeTeamMembersLoop a (userTeam # rest) s =
     (case invoke (CallRemoveUserFromTeam (tm_TeamId userTeam) (tm_UserId userTeam) [])
             (RemoveUserFromTeam a (tm_TeamId userTeam) (tm_UserId userTeam) []) s of
        (Some err, s1) \<Rightarrow> (Some err, s1)
      | (None, s1) \<Rightarrow>
          removeTeamMembersLoop a rest
            (emit (removed_teammember (tm_UserId userTeam) (tm_TeamId userTeam)) s1))"

text \<open>The method (lines 87-128).\<close>

definition DeleteGroupConstrainedMemberships ::
  "'w App \<Rightarrow> 'w run \<Rightarrow> AppError option \<times> 'w run" where
  "DeleteGroupConstrainedMemberships a s =
     (case invoke CallChannelMembersToRemove (ChannelMembersToRemove a) s of
        (Inl appErr, s1) \<Rightarrow> (Some appErr, s1)
      | (Inr channelMembers, s1) \<Rightarrow>
          (case removeChannelMembersLoop a channelMembers s1 of
             (Some err, s2) \<Rightarrow> (Some err, s2)
           | (None, s2) \<Rightarrow>
               (case invoke CallTeamMembersToRemove (TeamMembersToRemove a) s2 of
                  (Inl appErr, s3) \<Rightarrow> (Some appErr, s3)
                | (Inr teamMembers, s3) \<Rightarrow> removeTeamMembersLoop a teamMembers s3)))"

section \<open>SyncSyncableRoles\<close>

text \<open>The log entry of lines 138-142.\<close>

definition permitted_admins_entry :: "string \<Rightarrow> GroupSyncableType \<Rightarrow> string list \<Rightarrow> event" where
  "permitted_admins_entry syncableID syncableType permittedAdmins =
     LogInfo (Sprintf ''Permitted admins for %s'' syncableType)
       [mlog_String (ToLower (Sprintf ''%s_id'' syncableType)) syncableID,
        mlog_Any (Text ''permitted_admins'') permittedAdmins]"

text \<open>
  The \<^verbatim>\<open>switch\<close> of lines 146-153: the update function of the syncable's store
  (with the constructor under which its calls are recorded), or none for a type that
  is neither Team nor Channel.
\<close>

definition updateFunc ::
  "'w App \<Rightarrow> GroupSyncableType
     \<Rightarrow> ((string \<Rightarrow> string list \<Rightarrow> Equality \<Rightarrow> bool \<Rightarrow> call) \<times>
         (string \<Rightarrow> string list \<Rightarrow> Equality \<Rightarrow> bool \<Rightarrow> 'w \<Rightarrow> AppError option \<times> 'w)) option" where
  "updateFunc a syncableType =
     (case syncableType of
        GroupSyncableTypeTeam \<Rightarrow> Some (CallTeamUpdateMembersRole, Team_UpdateMembersRole a)
      | GroupSyncableTypeChannel \<Rightarrow>
          Some (CallChannelUpdateMembersRole, Channel_UpdateMembersRole a)
      | GroupSyncableTypeOther _ \<Rightarrow> None)"

definition unsupported_syncable_type :: "GroupSyncableType \<Rightarrow> AppError" where
  "unsupported_syncable_type syncableType =
     NewAppError ''App.SyncSyncableRoles'' ''groups.unsupported_syncable_type''
       [(''Value'', syncableType)] [] StatusInternalServerError"

text \<open>The method (lines 132-166).\<close>

definition SyncSyncableRoles ::
  "'w App \<Rightarrow> string \<Rightarrow> GroupSyncableType \<Rightarrow> 'w run \<Rightarrow> AppError option \<times> 'w run" where
  "SyncSyncableRoles a syncableID syncableType s =
     (case invoke (CallPermittedSyncableAdmins syncableID syncableType)
             (PermittedSyncableAdmins a syncableID syncableType) s of
        (Inl err, s1) \<Rightarrow> (Some err, s1)
      | (Inr permittedAdmins, s1) \<Rightarrow>
          (let s2 = emit (permitted_admins_entry syncableID syncableType permittedAdmins) s1
           in case updateFunc a syncableType of
                None \<Rightarrow> (Some (unsupported_syncable_type syncableType), s2)
              | Some (recorded, update) \<Rightarrow>
                  (case invoke (recorded syncableID permittedAdmins Equals True)
                          (update syncableID permittedAdmins Equals True) s2 of
                     (Some err, s3) \<Rightarrow> (Some err, s3)
                   | (None, s3) \<Rightarrow>
                       (case invoke (recorded syncableID permittedAdmins NotEquals False)
                               (update syncableID permittedAdmins NotEquals False) s3 of
                          (Some err, s4) \<Rightarrow> (Some err, s4)
                        | (None, s4) \<Rightarrow> (None, s4)))))"

section \<open>The persistence boundary, from the specification\<close>

text \<open>
  The claims about the memberships that exist after a pass depend on what the
  collaborators do to the stored memberships, and no collaborator is defined in
  \<^verbatim>\<open>app/syncables.go\<close>. This section models them from sections 3 to 7 of the
  specification; the three methods above are then run on the model.
\<close>

text \<open>
  Modelled from the spec: the state of the persistence layer, whose declaration is
  missing from the file. A channel references its owning team; a team or channel
  membership is a (syncable, user) pair with an admin flag (section 3); the sets to
  add (by cursor) and to remove and the permitted admins are derived by the
  persistence layer and only read by the three methods (sections 4 and 6); a storage
  failure, or a conflict caused by unrelated activity, makes a call fail (sections 5
  and 7): \<open>st_Failing\<close> lists the calls that fail, with their errors.
\<close>

record Store =
  st_Channels :: "string \<rightharpoonup> string"
  st_TeamMembers :: "string \<times> string \<rightharpoonup> bool"
  st_ChannelMembers :: "string \<times> string \<rightharpoonup> bool"
  st_TeamMembersToAdd :: "64 word \<Rightarrow> UserTeamIDPair list"
  st_ChannelMembersToAdd :: "64 word \<Rightarrow> UserChannelIDPair list"
  st_ChannelMembersToRemove :: "ChannelMember list"
  st_TeamMembersToRemove :: "TeamMember list"
  st_PermittedAdmins :: "string \<Rightarrow> GroupSyncableType \<Rightarrow> string list"
  st_Failing :: "call \<Rightarrow> AppError option"

text \<open>
  Modelled from the spec: the error of a team-membership lookup that finds no
  membership (NotFound, tolerated; section 6). The function that builds it is missing
  from the file; its identifier is the one the code compares with.
\<close>

definition team_member_missing :: AppError where
  "team_member_missing =
     NewAppError ''GetTeamMember'' ''store.sql_team.get_member.missing.app_error'' [] [] 404"

text \<open>
  Modelled from the spec: the NotFound error of \<^verbatim>\<open>GetChannel\<close> for an absent
  channel (section 6); the function that builds it is missing from the file.
\<close>

definition channel_not_found :: AppError where
  "channel_not_found = NewAppError ''GetChannel'' ''NotFound'' [] [] 404"

text \<open>
  Modelled from the spec: an external query (\<^verbatim>\<open>TeamMembersToAdd\<close>,
  \<^verbatim>\<open>ChannelMembersToAdd\<close>, \<^verbatim>\<open>ChannelMembersToRemove\<close>,
  \<^verbatim>\<open>TeamMembersToRemove\<close>, \<^verbatim>\<open>PermittedSyncableAdmins\<close>, all missing from the
  file) reads its derived set, or fails and changes nothing (sections 6 and 7).
\<close>

definition query :: "call \<Rightarrow> (Store \<Rightarrow> 'r) \<Rightarrow> Store \<Rightarrow> (AppError + 'r) \<times> Store" where
  "query c f w = (case st_Failing w c of Some e \<Rightarrow> (Inl e, w) | None \<Rightarrow> (Inr (f w), w))"

text \<open>
  Modelled from the spec: a command (add, remove, update role; all missing from the
  file) changes the stored memberships, or fails and changes nothing (sections 6
  and 7).
\<close>

definition command :: "call \<Rightarrow> (Store \<Rightarrow> Store) \<Rightarrow> Store \<Rightarrow> AppError option \<times> Store" where
  "command c f w = (case st_Failing w c of Some e \<Rightarrow> (Some e, w) | None \<Rightarrow> (None, f w))"

text \<open>
  Modelled from the spec: \<^verbatim>\<open>GetChannel\<close> (missing from the file) resolves a
  channel to its owning team and fails with NotFound if the channel is absent
  (section 6).
\<close>

definition store_GetChannel :: "string \<Rightarrow> Store \<Rightarrow> (AppError + Channel) \<times> Store" where
  "store_GetChannel channelID w =
     (case st_Failing w (CallGetChannel channelID) of
        Some e \<Rightarrow> (Inl e, w)
      | None \<Rightarrow>
          (case st_Channels w channelID of
             None \<Rightarrow> (Inl channel_not_found, w)
           | Some teamID \<Rightarrow> (Inr \<lparr>ch_Id = channelID, ch_TeamId = teamID\<rparr>, w)))"

text \<open>
  Modelled from the spec: \<^verbatim>\<open>GetTeamMember\<close> (missing from the file) returns the
  membership, or fails with NotFound when there is none, or with another error
  (section 6).
\<close>

definition store_GetTeamMember ::
  "string \<Rightarrow> string \<Rightarrow> Store \<Rightarrow> (TeamMember option \<times> AppError option) \<times> Store" where
  "store_GetTeamMember teamID userID w =
     (case st_Failing w (CallGetTeamMember teamID userID) of
        Some e \<Rightarrow> ((None, Some e), w)
      | None \<Rightarrow>
          (case st_TeamMembers w (teamID, userID) of
             None \<Rightarrow> ((None, Some team_member_missing), w)
           | Some _ \<Rightarrow> ((Some \<lparr>tm_TeamId = teamID, tm_UserId = userID\<rparr>, None), w)))"

text \<open>
  Modelled from the spec: adding a membership that exists is a no-op (section 5:
  reapplying an already-satisfied add is a no-op); a new membership is not an admin
  until the roles are synchronised (section 3).
\<close>

definition add_member ::
  "string \<times> string \<Rightarrow> (string \<times> string \<rightharpoonup> bool) \<Rightarrow> (string \<times> string \<rightharpoonup> bool)" where
  "add_member k m = (case m k of None \<Rightarrow> m(k \<mapsto> False) | Some _ \<Rightarrow> m)"

text \<open>
  Modelled from the spec: \<^verbatim>\<open>AddTeamMember\<close> (missing from the file) creates the
  team membership of the pair (sections 3 and 4.1).
\<close>

definition store_AddTeamMember :: "string \<Rightarrow> string \<Rightarrow> Store \<Rightarrow> AppError option \<times> Store" where
  "store_AddTeamMember teamID userID =
     command (CallAddTeamMember teamID userID)
       (\<lambda>w. w\<lparr>st_TeamMembers := add_member (teamID, userID) (st_TeamMembers w)\<rparr>)"

text \<open>
  Modelled from the spec: \<^verbatim>\<open>AddChannelMember\<close> (missing from the file) creates
  the channel membership of the user in the channel (sections 3 and 4.1); the conflict
  with a user who has left the owning team is one of the failures of the call.
\<close>

definition store_AddChannelMember ::
  "string \<Rightarrow> Channel \<Rightarrow> string \<Rightarrow> string \<Rightarrow> Store \<Rightarrow> AppError option \<times> Store" where
  "store_AddChannelMember userID channel joinSource postRootID =
     command (CallAddChannelMember userID channel joinSource postRootID)
       (\<lambda>w. w\<lparr>st_ChannelMembers := add_member (ch_Id channel, userID) (st_ChannelMembers w)\<rparr>)"

text \<open>
  Modelled from the spec: \<^verbatim>\<open>RemoveUserFromChannel\<close> (missing from the file)
  destroys the channel membership of the pair (sections 3 and 4.2).
\<close>

definition store_RemoveUserFromChannel ::
  "string \<Rightarrow> string \<Rightarrow> Channel \<Rightarrow> Store \<Rightarrow> AppError option \<times> Store" where
  "store_RemoveUserFromChannel userID requesterID channel =
     command (CallRemoveUserFromChannel userID requesterID channel)
       (\<lambda>w. w\<lparr>st_ChannelMembers := (st_ChannelMembers w)((ch_Id channel, userID) := None)\<rparr>)"

text \<open>
  Modelled from the spec: \<^verbatim>\<open>RemoveUserFromTeam\<close> (missing from the file)
  destroys the team membership of the pair (sections 3 and 4.2).
\<close>

definition store_RemoveUserFromTeam ::
  "string \<Rightarrow> string \<Rightarrow> string \<Rightarrow> Store \<Rightarrow> AppError option \<times> Store" where
  "store_RemoveUserFromTeam teamID userID requesterID =
     command (CallRemoveUserFromTeam teamID userID requesterID)
       (\<lambda>w. w\<lparr>st_TeamMembers := (st_TeamMembers w)((teamID, userID) := None)\<rparr>)"

text \<open>
  Modelled from the spec: the memberships a bulk role update selects, those whose
  user is in the list (equals mode) or is not in it (not-equals mode) (section 4.3,
  step 4).
\<close>

definition selected :: "Equality \<Rightarrow> string list \<Rightarrow> string \<Rightarrow> bool" where
  "selected mode userIDs userID =
     (case mode of Equals \<Rightarrow> userID \<in> set userIDs | NotEquals \<Rightarrow> userID \<notin> set userIDs)"

text \<open>
  Modelled from the spec: a bulk role update assigns the role value to the selected
  memberships of the given syncable and to no other membership (section 4.3, step 4:
  both updates are scoped to the given syncable only).
\<close>

definition update_roles ::
  "string \<Rightarrow> string list \<Rightarrow> Equality \<Rightarrow> bool \<Rightarrow> (string \<times> string \<rightharpoonup> bool)
     \<Rightarrow> (string \<times> string \<rightharpoonup> bool)" where
  "update_roles syncableID userIDs mode roleValue m =
     (\<lambda>k. case m k of
            None \<Rightarrow> None
          | Some admin \<Rightarrow>
              if fst k = syncableID \<and> selected mode userIDs (snd k) then Some roleValue
              else Some admin)"

text \<open>
  Modelled from the spec: \<^verbatim>\<open>UpdateMembersRole\<close> of the team store (missing from
  the file), the bulk role update on team memberships (sections 4.3 and 6).
\<close>

definition store_Team_UpdateMembersRole ::
  "string \<Rightarrow> string list \<Rightarrow> Equality \<Rightarrow> bool \<Rightarrow> Store \<Rightarrow> AppError option \<times> Store" where
  "store_Team_UpdateMembersRole teamID userIDs mode roleValue =
     command (CallTeamUpdateMembersRole teamID userIDs mode roleValue)
       (\<lambda>w. w\<lparr>st_TeamMembers := update_roles teamID userIDs mode roleValue (st_TeamMembers w)\<rparr>)"

text \<open>
  Modelled from the spec: \<^verbatim>\<open>UpdateMembersRole\<close> of the channel store (missing
  from the file), the bulk role update on channel memberships (sections 4.3 and 6).
\<close>

definition store_Channel_UpdateMembersRole ::
  "string \<Rightarrow> string list \<Rightarrow> Equality \<Rightarrow> bool \<Rightarrow> Store \<Rightarrow> AppError option \<times> Store" where
  "store_Channel_UpdateMembersRole channelID userIDs mode roleValue =
     command (CallChannelUpdateMembersRole channelID userIDs mode roleValue)
       (\<lambda>w. w\<lparr>st_ChannelMembers :=
              update_roles channelID userIDs mode roleValue (st_ChannelMembers w)\<rparr>)"

text \<open>
  Modelled from the spec: the collaborators of section 6 on the store, for the three
  methods to run on.
\<close>

definition storeApp :: "Store App" where
  "storeApp =
     \<lparr>TeamMembersToAdd = (\<lambda>since. query (CallTeamMembersToAdd since) (\<lambda>w. st_TeamMembersToAdd w since)),
      AddTeamMember = store_AddTeamMember,
      ChannelMembersToAdd =
        (\<lambda>since. query (CallChannelMembersToAdd since) (\<lambda>w. st_ChannelMembersToAdd w since)),
      GetChannel = store_GetChannel,
      GetTeamMember = store_GetTeamMember,
      AddChannelMember = store_AddChannelMember,
      ChannelMembersToRemove = query CallChannelMembersToRemove st_ChannelMembersToRemove,
      RemoveUserFromChannel = store_RemoveUserFromChannel,
      TeamMembersToRemove = query CallTeamMembersToRemove st_TeamMembersToRemove,
      RemoveUserFromTeam = store_RemoveUserFromTeam,
      PermittedSyncableAdmins =
        (\<lambda>syncableID syncableType.
           query (CallPermittedSyncableAdmins syncableID syncableType)
             (\<lambda>w. st_PermittedAdmins w syncableID syncableType)),
      Team_UpdateMembersRole = store_Team_UpdateMembersRole,
      Channel_UpdateMembersRole = store_Channel_UpdateMembersRole\<rparr>"

text \<open>
  Modelled from the spec: the memberships of a syncable type with their admin flags
  (section 3); a type that is neither Team nor Channel has none.
\<close>

definition members_of :: "GroupSyncableType \<Rightarrow> Store \<Rightarrow> (string \<times> string \<rightharpoonup> bool)" where
  "members_of syncableType w =
     (case syncableType of
        GroupSyncableTypeTeam \<Rightarrow> st_TeamMembers w
      | GroupSyncableTypeChannel \<Rightarrow> st_ChannelMembers w
      | GroupSyncableTypeOther _ \<Rightarrow> Map.empty)"

section \<open>Vocabulary of the theorems\<close>

text \<open>What the first loop of \<^verbatim>\<open>CreateDefaultMemberships\<close> does for a pair it adds.\<close>

definition team_addition :: "UserTeamIDPair \<Rightarrow> event list" where
  "team_addition userTeam =
     [Call (CallAddTeamMember (ut_TeamID userTeam) (ut_UserID userTeam)),
      added_teammember (ut_UserID userTeam) (ut_TeamID userTeam)]"

text \<open>The calls that remove a membership, and the calls that write roles.\<close>

fun is_channel_removal :: "event \<Rightarrow> bool" where
  "is_channel_removal (Call (CallRemoveUserFromChannel _ _ _)) = True"
| "is_channel_removal _ = False"

fun is_team_removal :: "event \<Rightarrow> bool" where
  "is_team_removal (Call (CallRemoveUserFromTeam _ _ _)) = True"
| "is_team_removal _ = False"

fun is_role_update :: "event \<Rightarrow> bool" where
  "is_role_update (Call (CallTeamUpdateMembersRole _ _ _ _)) = True"
| "is_role_update (Call (CallChannelUpdateMembersRole _ _ _ _)) = True"
| "is_role_update _ = False"

text \<open>
  One store grows into another when only memberships were added: the channels, the
  derived sets and the failing calls are the same.
\<close>

definition grows :: "Store \<Rightarrow> Store \<Rightarrow> bool" where
  "grows w w' \<longleftrightarrow>
     st_Channels w' = st_Channels w \<and>
     st_TeamMembersToAdd w' = st_TeamMembersToAdd w \<and>
     st_ChannelMembersToAdd w' = st_ChannelMembersToAdd w \<and>
     st_Failing w' = st_Failing w \<and>
     st_TeamMembers w \<subseteq>\<^sub>m st_TeamMembers w' \<and>
     st_ChannelMembers w \<subseteq>\<^sub>m st_ChannelMembers w'"

subsection \<open>Concrete inputs\<close>

text \<open>
  A small store on which the theorems are instantiated: team \<open>t1\<close> with its channel
  \<open>c1\<close>, and users \<open>u1\<close> to \<open>u5\<close>.
\<close>

definition demo_store :: Store where
  "demo_store =
     \<lparr>st_Channels = [''c1'' \<mapsto> ''t1''],
      st_TeamMembers = [(''t1'', ''u5'') \<mapsto> True, (''t1'', ''u2'') \<mapsto> False],
      st_ChannelMembers = [(''c1'', ''u5'') \<mapsto> True, (''c1'', ''u2'') \<mapsto> False],
      st_TeamMembersToAdd =
        (\<lambda>since. [\<lparr>ut_UserID = ''u1'', ut_TeamID = ''t1''\<rparr>,
                   \<lparr>ut_UserID = ''u2'', ut_TeamID = ''t1''\<rparr>,
                   \<lparr>ut_UserID = ''u3'', ut_TeamID = ''t1''\<rparr>]),
      st_ChannelMembersToAdd =
        (\<lambda>since. [\<lparr>uc_UserID = ''u4'', uc_ChannelID = ''c1''\<rparr>,
                   \<lparr>uc_UserID = ''u1'', uc_ChannelID = ''c1''\<rparr>]),
      st_ChannelMembersToRemove = [\<lparr>cm_ChannelId = ''c1'', cm_UserId = ''u5''\<rparr>],
      st_TeamMembersToRemove = [\<lparr>tm_TeamId = ''t1'', tm_UserId = ''u5''\<rparr>],
      st_PermittedAdmins = (\<lambda>syncableID syncableType. [''u2'']),
      st_Failing = (\<lambda>c. None)\<rparr>"

text \<open>The store in which one more call fails, with the given error.\<close>

definition failing_at :: "call \<Rightarrow> AppError \<Rightarrow> Store \<Rightarrow> Store" where
  "failing_at c e w = w\<lparr>st_Failing := (st_Failing w)(c := Some e)\<rparr>"

text \<open>A storage failure, and the conflict that \<^verbatim>\<open>CreateDefaultMemberships\<close> tolerates.\<close>

definition storage_failure :: AppError where
  "storage_failure = NewAppError ''SqlStore'' ''store.internal_error'' [] [] 500"

definition left_team_conflict :: AppError where
  "left_team_conflict =
     NewAppError ''AddUserToChannel'' ''api.channel.add_user.to.channel.failed.deleted.app_error''
       [] [] 400"

text \<open>The channel \<open>c1\<close> as \<^verbatim>\<open>GetChannel\<close> returns it, and a run that starts on a store.\<close>

definition c1 :: Channel where
  "c1 = \<lparr>ch_Id = ''c1'', ch_TeamId = ''t1''\<rparr>"

definition start :: "Store \<Rightarrow> Store run" where
  "start w = \<lparr>world = w, trace = []\<rparr>"

section \<open>Facts about the embedding\<close>

lemma result_None: "fst p = None \<Longrightarrow> p = (None, snd p)"
  by (cases p) simp

subsection \<open>CreateDefaultMemberships\<close>

lemma teamMembersLoop_append:
  "teamMembersLoop a (xs @ ys) s =
     (case teamMembersLoop a xs s of
        (Some err, s1) \<Rightarrow> (Some err, s1)
      | (None, s1) \<Rightarrow> teamMembersLoop a ys s1)"
  by (induction xs arbitrary: s) (auto split: prod.splits option.splits)

lemma teamMembersLoop_trace:
  "teamMembersLoop a xs s = (None, s') \<Longrightarrow>
     trace s' = trace s @ concat (map team_addition xs)"
  by (induction xs arbitrary: s)
     (auto simp: invoke_def emit_def team_addition_def split: prod.splits option.splits)

lemma channelMembersLoop_append:
  "channelMembersLoop a (xs @ ys) s =
     (case channelMembersLoop a xs s of
        (Some err, s1) \<Rightarrow> (Some err, s1)
      | (None, s1) \<Rightarrow> channelMembersLoop a ys s1)"
  by (induction xs arbitrary: s) (auto split: prod.splits option.splits)

lemma CreateDefaultMemberships_second_loop:
  assumes "TeamMembersToAdd a since (world s) = (Inr tms, w0)"
    and "teamMembersLoop a tms
           \<lparr>world = w0, trace = trace s @ [Call (CallTeamMembersToAdd since)]\<rparr> = (None, s1)"
    and "ChannelMembersToAdd a since (world s1) = (Inr (pre @ uc # rest), w2)"
    and "channelMembersLoop a pre
           \<lparr>world = w2, trace = trace s1 @ [Call (CallChannelMembersToAdd since)]\<rparr> = (None, s3)"
  shows "CreateDefaultMemberships a since s =
           (case channelMemberBody a uc s3 of
              (Some err, s4) \<Rightarrow> (Some err, s4)
            | (None, s4) \<Rightarrow> channelMembersLoop a rest s4)"
  using assms
  by (simp add: CreateDefaultMemberships_def invoke_def channelMembersLoop_append)

lemma channelMembersLoop_extends:
  "\<exists>post. trace (snd (channelMembersLoop a xs s)) = trace s @ post"
proof (induction xs arbitrary: s)
  case Nil
  then show ?case by simp
next
  case (Cons x xs)
  have body: "\<exists>post. trace (snd (channelMemberBody a x s)) = trace s @ post"
    by (auto simp: channelMemberBody_def teamMembershipFirst_def firstAddUserToTeam_def
          addUserToChannel_def invoke_def emit_def Let_def
        split: prod.splits sum.splits option.splits)
  show ?case
  proof (cases "channelMemberBody a x s")
    case (Pair r s1)
    then show ?thesis
    proof (cases r)
      case None
      from Cons.IH [of s1] obtain p2 where "trace (snd (channelMembersLoop a xs s1)) = trace s1 @ p2" ..
      moreover from body Pair obtain p1 where "trace s1 = trace s @ p1" by auto
      ultimately show ?thesis using Pair None by simp
    next
      case (Some e)
      then show ?thesis using body Pair by simp
    qed
  qed
qed

lemma addUserToChannel_calls_first:
  "\<exists>post. trace (snd (addUserToChannel a uc channel s)) =
            trace s @ Call (CallAddChannelMember (uc_UserID uc) channel [] []) # post"
  by (auto simp: addUserToChannel_def invoke_def emit_def split: prod.splits option.splits)

subsection \<open>DeleteGroupConstrainedMemberships\<close>

lemma removeChannelMembersLoop_events:
  "\<exists>evs. trace (snd (removeChannelMembersLoop a xs s)) = trace s @ evs \<and>
         filter is_team_removal evs = []"
proof (induction xs arbitrary: s)
  case Nil
  then show ?case by simp
next
  case (Cons x xs)
  show ?case
  proof (cases "GetChannel a (cm_ChannelId x) (world s)")
    case (Pair r w1)
    show ?thesis
    proof (cases r)
      case (Inl err)
      then show ?thesis using Pair by (simp add: invoke_def)
    next
      case (Inr channel)
      show ?thesis
      proof (cases "RemoveUserFromChannel a (cm_UserId x) [] channel w1")
        case inner: (Pair r2 w2)
        show ?thesis
        proof (cases r2)
          case (Some err)
          then show ?thesis using Pair Inr inner by (simp add: invoke_def)
        next
          case None
          let ?s2 = "emit (removed_channelmember (cm_UserId x) (ch_Id channel))
                       \<lparr>world = w2, trace = (trace s @ [Call (CallGetChannel (cm_ChannelId x))]) @
                          [Call (CallRemoveUserFromChannel (cm_UserId x) [] channel)]\<rparr>"
          from Cons.IH [of ?s2] obtain evs where
            evs: "trace (snd (removeChannelMembersLoop a xs ?s2)) = trace ?s2 @ evs"
              "filter is_team_removal evs = []" by blast
          have step: "removeChannelMembersLoop a (x # xs) s = removeChannelMembersLoop a xs ?s2"
            using Pair Inr inner None by (simp add: invoke_def)
          show ?thesis
            unfolding step using evs
            by (simp add: emit_def removed_channelmember_def)
        qed
      qed
    qed
  qed
qed

lemma removeTeamMembersLoop_events:
  "\<exists>evs. trace (snd (removeTeamMembersLoop a xs s)) = trace s @ evs \<and>
         filter is_channel_removal evs = []"
proof (induction xs arbitrary: s)
  case Nil
  then show ?case by simp
next
  case (Cons x xs)
  show ?case
  proof (cases "RemoveUserFromTeam a (tm_TeamId x) (tm_UserId x) [] (world s)")
    case (Pair r w1)
    show ?thesis
    proof (cases r)
      case (Some err)
      then show ?thesis using Pair by (simp add: invoke_def)
    next
      case None
      let ?s1 = "emit (removed_teammember (tm_UserId x) (tm_TeamId x))
                   \<lparr>world = w1,
                    trace = trace s @ [Call (CallRemoveUserFromTeam (tm_TeamId x) (tm_UserId x) [])]\<rparr>"
      from Cons.IH [of ?s1] obtain evs where
        evs: "trace (snd (removeTeamMembersLoop a xs ?s1)) = trace ?s1 @ evs"
          "filter is_channel_removal evs = []" by blast
      have step: "removeTeamMembersLoop a (x # xs) s = removeTeamMembersLoop a xs ?s1"
        using Pair None by (simp add: invoke_def)
      show ?thesis
        unfolding step using evs by (simp add: emit_def removed_teammember_def)
    qed
  qed
qed

lemma removal_order:
  "\<exists>chans teams.
      trace (snd (DeleteGroupConstrainedMemberships a s)) = trace s @ chans @ teams \<and>
      filter is_team_removal chans = [] \<and> filter is_channel_removal teams = []"
proof (cases "ChannelMembersToRemove a (world s)")
  case (Pair r w1)
  show ?thesis
  proof (cases r)
    case (Inl err)
    have "trace (snd (DeleteGroupConstrainedMemberships a s)) =
            trace s @ [Call CallChannelMembersToRemove] @ []"
      using Pair Inl by (simp add: DeleteGroupConstrainedMemberships_def invoke_def)
    moreover have "filter is_team_removal [Call CallChannelMembersToRemove] = []" by simp
    ultimately show ?thesis by (metis filter.simps(1))
  next
    case (Inr cms)
    let ?s1 = "\<lparr>world = w1, trace = trace s @ [Call CallChannelMembersToRemove]\<rparr>"
    obtain evs1 where evs1:
      "trace (snd (removeChannelMembersLoop a cms ?s1)) = trace ?s1 @ evs1"
      "filter is_team_removal evs1 = []"
      using removeChannelMembersLoop_events by blast
    show ?thesis
    proof (cases "removeChannelMembersLoop a cms ?s1")
      case loop1: (Pair r1 s2)
      show ?thesis
      proof (cases r1)
        case (Some err)
        have "trace (snd (DeleteGroupConstrainedMemberships a s)) =
                trace s @ (Call CallChannelMembersToRemove # evs1) @ []"
          using Pair Inr loop1 Some evs1
          by (simp add: DeleteGroupConstrainedMemberships_def invoke_def)
        moreover have "filter is_team_removal (Call CallChannelMembersToRemove # evs1) = []"
          using evs1 by simp
        ultimately show ?thesis by (metis filter.simps(1))
      next
        case None
        have s2: "trace s2 = trace s @ Call CallChannelMembersToRemove # evs1"
          using evs1 loop1 by simp
        show ?thesis
        proof (cases "TeamMembersToRemove a (world s2)")
          case q2: (Pair r2 w3)
          show ?thesis
          proof (cases r2)
            case (Inl err)
            have "trace (snd (DeleteGroupConstrainedMemberships a s)) =
                trace s @ (Call CallChannelMembersToRemove # evs1) @ [Call CallTeamMembersToRemove]"
              using Pair Inr loop1 None q2 Inl s2
              by (simp add: DeleteGroupConstrainedMemberships_def invoke_def)
            moreover have "filter is_team_removal (Call CallChannelMembersToRemove # evs1) = []"
              using evs1 by simp
            moreover have "filter is_channel_removal [Call CallTeamMembersToRemove] = []" by simp
            ultimately show ?thesis by blast
          next
            case (Inr tms)
            let ?s3 = "\<lparr>world = w3, trace = trace s2 @ [Call CallTeamMembersToRemove]\<rparr>"
            obtain evs2 where evs2:
              "trace (snd (removeTeamMembersLoop a tms ?s3)) = trace ?s3 @ evs2"
              "filter is_channel_removal evs2 = []"
              using removeTeamMembersLoop_events by blast
            have "trace (snd (DeleteGroupConstrainedMemberships a s)) =
                trace s @ (Call CallChannelMembersToRemove # evs1) @
                  (Call CallTeamMembersToRemove # evs2)"
              using Pair \<open>r = Inr cms\<close> loop1 None q2 Inr s2 evs2
              by (simp add: DeleteGroupConstrainedMemberships_def invoke_def)
            moreover have "filter is_team_removal (Call CallChannelMembersToRemove # evs1) = []"
              using evs1 by simp
            moreover have "filter is_channel_removal (Call CallTeamMembersToRemove # evs2) = []"
              using evs2 by simp
            ultimately show ?thesis by blast
          qed
        qed
      qed
    qed
  qed
qed

section \<open>Facts about the three methods on the store\<close>

lemma storeApp_sel:
  "TeamMembersToAdd storeApp since = query (CallTeamMembersToAdd since) (\<lambda>w. st_TeamMembersToAdd w since)"
  "AddTeamMember storeApp = store_AddTeamMember"
  "ChannelMembersToAdd storeApp since =
     query (CallChannelMembersToAdd since) (\<lambda>w. st_ChannelMembersToAdd w since)"
  "GetChannel storeApp = store_GetChannel"
  "GetTeamMember storeApp = store_GetTeamMember"
  "AddChannelMember storeApp = store_AddChannelMember"
  "ChannelMembersToRemove storeApp = query CallChannelMembersToRemove st_ChannelMembersToRemove"
  "RemoveUserFromChannel storeApp = store_RemoveUserFromChannel"
  "TeamMembersToRemove storeApp = query CallTeamMembersToRemove st_TeamMembersToRemove"
  "RemoveUserFromTeam storeApp = store_RemoveUserFromTeam"
  "PermittedSyncableAdmins storeApp syncableID syncableType =
     query (CallPermittedSyncableAdmins syncableID syncableType)
       (\<lambda>w. st_PermittedAdmins w syncableID syncableType)"
  "Team_UpdateMembersRole storeApp = store_Team_UpdateMembersRole"
  "Channel_UpdateMembersRole storeApp = store_Channel_UpdateMembersRole"
  by (simp_all add: storeApp_def)

lemmas store_simps =
  storeApp_sel query_def command_def store_GetChannel_def store_GetTeamMember_def
  store_AddTeamMember_def store_AddChannelMember_def store_RemoveUserFromChannel_def
  store_RemoveUserFromTeam_def store_Team_UpdateMembersRole_def
  store_Channel_UpdateMembersRole_def

lemmas run_simps =
  store_simps invoke_def emit_def add_member_def demo_store_def failing_at_def start_def
  storage_failure_def left_team_conflict_def team_member_missing_def channel_not_found_def
  NewAppError_def c1_def

subsection \<open>Roles and removals\<close>

lemma update_roles_twice:
  "update_roles syncableID ids NotEquals False (update_roles syncableID ids Equals True m) (syncableID, u) =
     (case m (syncableID, u) of None \<Rightarrow> None | Some _ \<Rightarrow> Some (u \<in> set ids))"
  by (simp add: update_roles_def selected_def split: option.splits)

lemma SyncSyncableRoles_store_success:
  assumes "SyncSyncableRoles storeApp syncableID syncableType s = (None, s')"
  shows "(syncableType = GroupSyncableTypeTeam \<or> syncableType = GroupSyncableTypeChannel) \<and>
         members_of syncableType (world s') =
           update_roles syncableID (st_PermittedAdmins (world s) syncableID syncableType) NotEquals False
             (update_roles syncableID (st_PermittedAdmins (world s) syncableID syncableType) Equals True
                (members_of syncableType (world s)))"
  using assms
  by (cases syncableType)
     (auto simp: SyncSyncableRoles_def store_simps updateFunc_def invoke_def emit_def Let_def
        members_of_def split: option.splits)

lemma removeChannelMembersLoop_store:
  assumes "removeChannelMembersLoop storeApp xs s = (None, s')"
  shows "(\<forall>cm \<in> set xs. st_ChannelMembers (world s') (cm_ChannelId cm, cm_UserId cm) = None) \<and>
         (\<forall>k. st_ChannelMembers (world s) k = None \<longrightarrow> st_ChannelMembers (world s') k = None)"
  using assms
proof (induction xs arbitrary: s)
  case Nil
  then show ?case by simp
next
  case (Cons x xs)
  from Cons.prems obtain s2 where
    step: "removeChannelMembersLoop storeApp xs s2 = (None, s')"
    and w2: "st_ChannelMembers (world s2) =
               (st_ChannelMembers (world s))((cm_ChannelId x, cm_UserId x) := None)"
    by (auto simp: store_simps invoke_def emit_def split: option.splits prod.splits sum.splits)
  from Cons.IH [OF step] w2 show ?case by auto
qed

lemma removeTeamMembersLoop_store:
  "st_ChannelMembers (world (snd (removeTeamMembersLoop storeApp xs s))) =
     st_ChannelMembers (world s)"
  by (induction xs arbitrary: s)
     (auto simp: store_simps invoke_def emit_def split: option.splits prod.splits)

lemma removed_pairs_not_members:
  assumes "DeleteGroupConstrainedMemberships storeApp s = (None, s')"
  shows "\<forall>cm \<in> set (st_ChannelMembersToRemove (world s)).
           st_ChannelMembers (world s') (cm_ChannelId cm, cm_UserId cm) = None"
proof -
  let ?s1 = "\<lparr>world = world s, trace = trace s @ [Call CallChannelMembersToRemove]\<rparr>"
  obtain r2 s2 where loop1:
    "removeChannelMembersLoop storeApp (st_ChannelMembersToRemove (world s)) ?s1 = (r2, s2)"
    by (cases "removeChannelMembersLoop storeApp (st_ChannelMembersToRemove (world s)) ?s1")
  let ?s3 = "\<lparr>world = world s2, trace = trace s2 @ [Call CallTeamMembersToRemove]\<rparr>"
  from assms loop1 have ok: "r2 = None"
    and fin: "s' = snd (removeTeamMembersLoop storeApp (st_TeamMembersToRemove (world s2)) ?s3)"
    by (auto simp: DeleteGroupConstrainedMemberships_def storeApp_sel query_def invoke_def
          split: option.splits prod.splits sum.splits)
  have "st_ChannelMembers (world s') = st_ChannelMembers (world s2)"
    unfolding fin by (simp add: removeTeamMembersLoop_store)
  then show ?thesis
    using removeChannelMembersLoop_store [OF loop1 [unfolded ok]] by simp
qed

subsection \<open>Running the additions again\<close>

text \<open>
  A run of \<^verbatim>\<open>CreateDefaultMemberships\<close> only adds memberships, and what it did on
  a store it does again, without any change, on every store the first one has grown
  into.
\<close>

lemma grows_refl: "grows w w"
  by (simp add: grows_def)

lemma grows_trans: "grows w1 w2 \<Longrightarrow> grows w2 w3 \<Longrightarrow> grows w1 w3"
  by (auto simp: grows_def intro: map_le_trans)

lemma add_member_present: "m k = Some v \<Longrightarrow> add_member k m = m"
  by (simp add: add_member_def)

lemma add_member_le: "m \<subseteq>\<^sub>m add_member k m"
  by (auto simp: add_member_def map_le_def split: option.splits)

lemma add_member_in: "\<exists>v. add_member k m k = Some v"
  by (cases "m k") (auto simp: add_member_def)

lemma map_le_present: "m \<subseteq>\<^sub>m m' \<Longrightarrow> m k = Some v \<Longrightarrow> m' k = Some v"
  by (metis domI map_le_def)

lemma AddTeamMember_store:
  "AddTeamMember storeApp t u w =
     (case st_Failing w (CallAddTeamMember t u) of
        Some e \<Rightarrow> (Some e, w)
      | None \<Rightarrow> (None, w\<lparr>st_TeamMembers := add_member (t, u) (st_TeamMembers w)\<rparr>))"
  by (simp add: store_simps)

lemma AddTeamMember_grows: "grows w (snd (AddTeamMember storeApp t u w))"
  by (simp add: AddTeamMember_store grows_def add_member_le split: option.splits)

lemma AddTeamMember_added:
  "AddTeamMember storeApp t u w = (None, w') \<Longrightarrow> \<exists>v. st_TeamMembers w' (t, u) = Some v"
  by (auto simp: AddTeamMember_store add_member_in split: option.splits)

lemma AddTeamMember_again:
  assumes "AddTeamMember storeApp t u w = (r, w1)" and "grows w1 w2"
  shows "AddTeamMember storeApp t u w2 = (r, w2)"
proof (cases r)
  case None
  with assms(1) obtain v where "st_TeamMembers w1 (t, u) = Some v"
    using AddTeamMember_added by blast
  then have "st_TeamMembers w2 (t, u) = Some v"
    using assms(2) by (auto simp: grows_def dest: map_le_present)
  moreover have "st_Failing w2 = st_Failing w"
    using assms AddTeamMember_grows [of w t u] by (simp add: grows_def)
  ultimately show ?thesis
    using assms(1) None
    by (auto simp: AddTeamMember_store add_member_present split: option.splits)
next
  case (Some e)
  moreover have "st_Failing w2 = st_Failing w"
    using assms AddTeamMember_grows [of w t u] by (simp add: grows_def)
  ultimately show ?thesis
    using assms(1) by (auto simp: AddTeamMember_store split: option.splits)
qed

lemma teamMembersLoop_grows: "grows (world s) (world (snd (teamMembersLoop storeApp xs s)))"
proof (induction xs arbitrary: s)
  case Nil
  show ?case by (simp add: grows_refl)
next
  case (Cons x xs)
  show ?case
  proof (cases "AddTeamMember storeApp (ut_TeamID x) (ut_UserID x) (world s)")
    case (Pair r w1)
    have g: "grows (world s) w1"
      using AddTeamMember_grows [of "world s" "ut_TeamID x" "ut_UserID x"] Pair by simp
    show ?thesis
    proof (cases r)
      case None
      then show ?thesis
        using Pair g
          Cons.IH [of "emit (added_teammember (ut_UserID x) (ut_TeamID x))
            \<lparr>world = w1, trace = trace s @ [Call (CallAddTeamMember (ut_TeamID x) (ut_UserID x))]\<rparr>"]
        by (auto simp: invoke_def emit_def intro: grows_trans)
    next
      case (Some e)
      then show ?thesis using Pair g by (simp add: invoke_def)
    qed
  qed
qed

lemma teamMembersLoop_again:
  assumes "teamMembersLoop storeApp xs s = (r, s')" and "grows (world s') (world t)"
  shows "fst (teamMembersLoop storeApp xs t) = r \<and>
         world (snd (teamMembersLoop storeApp xs t)) = world t"
  using assms
proof (induction xs arbitrary: s t)
  case Nil
  then show ?case by simp
next
  case (Cons x xs)
  obtain rx w1 where first: "AddTeamMember storeApp (ut_TeamID x) (ut_UserID x) (world s) = (rx, w1)"
    by (cases "AddTeamMember storeApp (ut_TeamID x) (ut_UserID x) (world s)")
  let ?c = "Call (CallAddTeamMember (ut_TeamID x) (ut_UserID x))"
  let ?l = "added_teammember (ut_UserID x) (ut_TeamID x)"
  show ?case
  proof (cases rx)
    case (Some e)
    with first Cons.prems have "r = Some e" "world s' = w1"
      by (auto simp: invoke_def)
    with Cons.prems(2) first Some
    have "AddTeamMember storeApp (ut_TeamID x) (ut_UserID x) (world t) = (Some e, world t)"
      using AddTeamMember_again by blast
    then show ?thesis using \<open>r = Some e\<close> by (simp add: invoke_def)
  next
    case None
    let ?s1 = "emit ?l \<lparr>world = w1, trace = trace s @ [?c]\<rparr>"
    let ?t1 = "emit ?l \<lparr>world = world t, trace = trace t @ [?c]\<rparr>"
    from first None Cons.prems(1) have rest: "teamMembersLoop storeApp xs ?s1 = (r, s')"
      by (simp add: invoke_def)
    have "grows (world ?s1) (world s')"
      using teamMembersLoop_grows [of ?s1 xs] rest by simp
    then have "grows w1 (world t)"
      using Cons.prems(2) by (auto simp: emit_def intro: grows_trans)
    with first None
    have again: "AddTeamMember storeApp (ut_TeamID x) (ut_UserID x) (world t) = (None, world t)"
      using AddTeamMember_again by blast
    have "grows (world s') (world ?t1)"
      using Cons.prems(2) by (simp add: emit_def)
    from Cons.IH [OF rest this] show ?thesis
      using again by (simp add: invoke_def emit_def)
  qed
qed

lemma GetChannel_store_grows:
  "grows w w2 \<Longrightarrow> GetChannel storeApp c w2 = (fst (GetChannel storeApp c w), w2)"
  by (simp add: store_simps grows_def split: option.splits)

lemma AddChannelMember_store:
  "AddChannelMember storeApp u ch js pr w =
     (case st_Failing w (CallAddChannelMember u ch js pr) of
        Some e \<Rightarrow> (Some e, w)
      | None \<Rightarrow> (None, w\<lparr>st_ChannelMembers := add_member (ch_Id ch, u) (st_ChannelMembers w)\<rparr>))"
  by (simp add: store_simps)

lemma AddChannelMember_grows: "grows w (snd (AddChannelMember storeApp u ch js pr w))"
  by (simp add: AddChannelMember_store grows_def add_member_le split: option.splits)

lemma AddChannelMember_again:
  assumes "AddChannelMember storeApp u ch js pr w = (r, w1)" and "grows w1 w2"
  shows "AddChannelMember storeApp u ch js pr w2 = (r, w2)"
proof -
  have f: "st_Failing w2 = st_Failing w"
    using assms AddChannelMember_grows [of w u ch js pr] by (simp add: grows_def)
  show ?thesis
  proof (cases r)
    case None
    with assms(1) obtain v where "st_ChannelMembers w1 (ch_Id ch, u) = Some v"
      using add_member_in [of "(ch_Id ch, u)" "st_ChannelMembers w"]
      by (auto simp: AddChannelMember_store split: option.splits)
    then have "st_ChannelMembers w2 (ch_Id ch, u) = Some v"
      using assms(2) by (auto simp: grows_def dest: map_le_present)
    then show ?thesis
      using assms(1) None f
      by (auto simp: AddChannelMember_store add_member_present split: option.splits)
  next
    case (Some e)
    then show ?thesis
      using assms(1) f by (auto simp: AddChannelMember_store split: option.splits)
  qed
qed

lemma addUserToChannel_grows:
  "grows (world s) (world (snd (addUserToChannel storeApp uc ch s)))"
  using AddChannelMember_grows [of "world s" "uc_UserID uc" ch "[]" "[]"]
  by (auto simp: addUserToChannel_def invoke_def emit_def split: prod.splits option.splits)

lemma addUserToChannel_again:
  assumes "addUserToChannel storeApp uc ch s = (r, s')" and "grows (world s') (world t)"
  shows "fst (addUserToChannel storeApp uc ch t) = r \<and>
         world (snd (addUserToChannel storeApp uc ch t)) = world t"
proof -
  obtain ra w1 where a: "AddChannelMember storeApp (uc_UserID uc) ch [] [] (world s) = (ra, w1)"
    by (cases "AddChannelMember storeApp (uc_UserID uc) ch [] [] (world s)")
  with assms(1) have "world s' = w1"
    by (auto simp: addUserToChannel_def invoke_def emit_def split: option.splits if_splits)
  with a assms(2)
  have "AddChannelMember storeApp (uc_UserID uc) ch [] [] (world t) = (ra, world t)"
    using AddChannelMember_again by blast
  with a assms(1) show ?thesis
    by (auto simp: addUserToChannel_def invoke_def emit_def split: option.splits if_splits)
qed

lemma GetTeamMember_store:
  "GetTeamMember storeApp t u w =
     (case st_Failing w (CallGetTeamMember t u) of
        Some e \<Rightarrow> ((None, Some e), w)
      | None \<Rightarrow>
          (case st_TeamMembers w (t, u) of
             None \<Rightarrow> ((None, Some team_member_missing), w)
           | Some _ \<Rightarrow> ((Some \<lparr>tm_TeamId = t, tm_UserId = u\<rparr>, None), w)))"
  by (simp add: store_simps)

lemma missing_Id: "er_Id team_member_missing = ''store.sql_team.get_member.missing.app_error''"
  by (simp add: team_member_missing_def NewAppError_def)

lemma teamMembershipFirst_grows:
  "grows (world s) (world (snd (teamMembershipFirst storeApp uc s)))"
proof -
  have "\<And>t u w. grows w (snd (AddTeamMember storeApp t u w))"
    by (rule AddTeamMember_grows)
  then have add: "\<And>t u w r w'. AddTeamMember storeApp t u w = (r, w') \<Longrightarrow> grows w w'"
    by (metis snd_conv)
  show ?thesis
    by (auto simp: teamMembershipFirst_def firstAddUserToTeam_def invoke_def emit_def Let_def
          GetTeamMember_store store_GetChannel_def storeApp_sel(4) grows_refl
        split: prod.splits option.splits sum.splits dest: add)
qed

lemma teamMembershipFirst_world:
  "world s = world t \<Longrightarrow>
   fst (teamMembershipFirst a uc s) = fst (teamMembershipFirst a uc t) \<and>
   world (snd (teamMembershipFirst a uc s)) = world (snd (teamMembershipFirst a uc t))"
  by (auto simp: teamMembershipFirst_def firstAddUserToTeam_def invoke_def emit_def Let_def
        split: prod.splits option.splits sum.splits)

lemma teamMembershipFirst_fails:
  "teamMembershipFirst storeApp uc s = (Inl e, s') \<Longrightarrow> world s' = world s"
  by (auto simp: teamMembershipFirst_def firstAddUserToTeam_def invoke_def emit_def Let_def
        GetTeamMember_store store_GetChannel_def storeApp_sel(4) AddTeamMember_store
      split: prod.splits option.splits sum.splits if_splits)

lemma teamMembershipFirst_again:
  assumes "teamMembershipFirst storeApp uc s = (Inr ch, s')" and "grows (world s') (world t)"
  shows "fst (teamMembershipFirst storeApp uc t) = Inr ch \<and>
         world (snd (teamMembershipFirst storeApp uc t)) = world t"
proof -
  let ?c = "uc_ChannelID uc" and ?u = "uc_UserID uc"
  have g: "grows (world s) (world t)"
    using teamMembershipFirst_grows [of s uc] assms by (auto intro: grows_trans)
  have same: "st_Failing (world t) = st_Failing (world s)"
    "st_Channels (world t) = st_Channels (world s)"
    using g by (simp_all add: grows_def)
  have mono: "\<And>k v. st_TeamMembers (world s) k = Some v \<Longrightarrow> st_TeamMembers (world t) k = Some v"
    using g by (auto simp: grows_def dest: map_le_present)
  have mono': "\<And>k v. st_TeamMembers (world s') k = Some v \<Longrightarrow> st_TeamMembers (world t) k = Some v"
    using assms(2) by (auto simp: grows_def dest: map_le_present)
  from assms(1) have ch: "GetChannel storeApp ?c (world s) = (Inr ch, world s)"
    by (auto simp: teamMembershipFirst_def invoke_def store_GetChannel_def storeApp_sel(4) Let_def
        split: prod.splits option.splits sum.splits if_splits)
  then have ch': "GetChannel storeApp ?c (world t) = (Inr ch, world t)"
    using GetChannel_store_grows [OF g, of ?c] by simp
  let ?s1 = "\<lparr>world = world s, trace = trace s @ [Call (CallGetChannel ?c)]\<rparr>"
  let ?t1 = "\<lparr>world = world t, trace = trace t @ [Call (CallGetChannel ?c)]\<rparr>"
  let ?look = "Call (CallGetTeamMember (ch_TeamId ch) ?u)"
  let ?s2 = "\<lparr>world = world s, trace = trace ?s1 @ [?look]\<rparr>"
  let ?t2 = "\<lparr>world = world t, trace = trace ?t1 @ [?look]\<rparr>"
  show ?thesis
  proof (cases "st_Failing (world s) (CallGetTeamMember (ch_TeamId ch) ?u)")
    case (Some e)
    with assms(1) ch have id: "er_Id e = ''store.sql_team.get_member.missing.app_error''"
      and add: "firstAddUserToTeam storeApp uc ch None ?s2 = (None, s')"
      by (auto simp: teamMembershipFirst_def invoke_def GetTeamMember_store Let_def
          split: prod.splits option.splits sum.splits if_splits)
    from add obtain w1 where
      a: "AddTeamMember storeApp (ch_TeamId ch) ?u (world s) = (None, w1)" and w1: "world s' = w1"
      by (auto simp: firstAddUserToTeam_def invoke_def emit_def split: prod.splits option.splits)
    have "AddTeamMember storeApp (ch_TeamId ch) ?u (world t) = (None, world t)"
      using AddTeamMember_again [OF a] assms(2) w1 by simp
    then have "fst (firstAddUserToTeam storeApp uc ch None ?t2) = None \<and>
               world (snd (firstAddUserToTeam storeApp uc ch None ?t2)) = world t"
      by (simp add: firstAddUserToTeam_def invoke_def emit_def)
    then show ?thesis
      using ch' Some id same
      by (auto simp: teamMembershipFirst_def invoke_def GetTeamMember_store Let_def
          split: prod.splits option.splits sum.splits)
  next
    case None
    show ?thesis
    proof (cases "st_TeamMembers (world s) (ch_TeamId ch, ?u)")
      case absent: None
      with assms(1) ch None
      have add: "firstAddUserToTeam storeApp uc ch None ?s2 = (None, s')"
        by (auto simp: teamMembershipFirst_def invoke_def GetTeamMember_store Let_def missing_Id
            split: prod.splits option.splits sum.splits if_splits)
      from add obtain w1 where
        a: "AddTeamMember storeApp (ch_TeamId ch) ?u (world s) = (None, w1)" and w1: "world s' = w1"
        by (auto simp: firstAddUserToTeam_def invoke_def emit_def split: prod.splits option.splits)
      obtain v where "st_TeamMembers (world s') (ch_TeamId ch, ?u) = Some v"
        using AddTeamMember_added [OF a] w1 by auto
      then have "st_TeamMembers (world t) (ch_TeamId ch, ?u) = Some v"
        by (rule mono')
      then show ?thesis
        using ch' None same
        by (simp add: teamMembershipFirst_def invoke_def GetTeamMember_store Let_def
              firstAddUserToTeam_def)
    next
      case (Some v)
      then have "st_TeamMembers (world t) (ch_TeamId ch, ?u) = Some v"
        by (rule mono)
      moreover from assms(1) ch None Some have "world s' = world s"
        by (auto simp: teamMembershipFirst_def invoke_def GetTeamMember_store Let_def
              firstAddUserToTeam_def
            split: prod.splits option.splits sum.splits if_splits)
      ultimately show ?thesis
        using ch' None same
        by (simp add: teamMembershipFirst_def invoke_def GetTeamMember_store Let_def
              firstAddUserToTeam_def)
    qed
  qed
qed

lemma channelMemberBody_grows:
  "grows (world s) (world (snd (channelMemberBody storeApp uc s)))"
proof (cases "teamMembershipFirst storeApp uc s")
  case (Pair r s1)
  have g1: "grows (world s) (world s1)"
    using teamMembershipFirst_grows [of s uc] Pair by simp
  show ?thesis
  proof (cases r)
    case (Inl e)
    then show ?thesis using Pair g1 by (simp add: channelMemberBody_def)
  next
    case (Inr ch)
    then show ?thesis
      using Pair g1 addUserToChannel_grows [of s1 uc ch]
      by (auto simp: channelMemberBody_def intro: grows_trans)
  qed
qed

lemma channelMemberBody_again:
  assumes "channelMemberBody storeApp uc s = (r, s')"
    and "if r = None then grows (world s') (world t) else world t = world s'"
  shows "fst (channelMemberBody storeApp uc t) = r \<and>
         world (snd (channelMemberBody storeApp uc t)) = world t"
proof (cases "teamMembershipFirst storeApp uc s")
  case (Pair r1 s1)
  show ?thesis
  proof (cases r1)
    case (Inl e)
    with Pair assms(1) have r: "r = Some e" and s': "s' = s1"
      by (simp_all add: channelMemberBody_def)
    have "world s1 = world s"
      using teamMembershipFirst_fails Pair Inl by blast
    with assms(2) r s' have "world t = world s" by simp
    from teamMembershipFirst_world [OF this, of storeApp uc] Pair Inl \<open>world s1 = world s\<close>
      \<open>world t = world s\<close>
    have "fst (teamMembershipFirst storeApp uc t) = Inl e"
      "world (snd (teamMembershipFirst storeApp uc t)) = world t"
      by simp_all
    then show ?thesis
      using r by (cases "teamMembershipFirst storeApp uc t") (simp add: channelMemberBody_def)
  next
    case (Inr ch)
    with Pair assms(1) have add: "addUserToChannel storeApp uc ch s1 = (r, s')"
      by (simp add: channelMemberBody_def)
    have g: "grows (world s') (world t)"
      using assms(2) by (auto simp: grows_refl split: if_splits)
    have "grows (world s1) (world s')"
      using addUserToChannel_grows [of s1 uc ch] add by simp
    then have "grows (world s1) (world t)"
      using g by (rule grows_trans)
    from teamMembershipFirst_again [OF Pair [unfolded Inr] this]
    obtain t1 where t1: "teamMembershipFirst storeApp uc t = (Inr ch, t1)" "world t1 = world t"
      by (cases "teamMembershipFirst storeApp uc t") auto
    from addUserToChannel_again [OF add, of t1] g t1(2)
    show ?thesis
      using t1 by (simp add: channelMemberBody_def)
  qed
qed

lemma channelMembersLoop_grows:
  "grows (world s) (world (snd (channelMembersLoop storeApp xs s)))"
proof (induction xs arbitrary: s)
  case Nil
  show ?case by (simp add: grows_refl)
next
  case (Cons x xs)
  show ?case
  proof (cases "channelMemberBody storeApp x s")
    case (Pair r s1)
    have g: "grows (world s) (world s1)"
      using channelMemberBody_grows [of s x] Pair by simp
    show ?thesis
    proof (cases r)
      case None
      then show ?thesis
        using Pair g Cons.IH [of s1] by (auto intro: grows_trans)
    next
      case (Some e)
      then show ?thesis using Pair g by simp
    qed
  qed
qed

lemma channelMembersLoop_again:
  assumes "channelMembersLoop storeApp xs s = (r, s')" and "world t = world s'"
  shows "fst (channelMembersLoop storeApp xs t) = r \<and>
         world (snd (channelMembersLoop storeApp xs t)) = world t"
  using assms
proof (induction xs arbitrary: s t)
  case Nil
  then show ?case by simp
next
  case (Cons x xs)
  obtain rx s1 where body: "channelMemberBody storeApp x s = (rx, s1)"
    by (cases "channelMemberBody storeApp x s")
  show ?case
  proof (cases rx)
    case (Some e)
    with body Cons.prems have "r = Some e" "s' = s1" by simp_all
    with channelMemberBody_again [OF body, of t] Some Cons.prems(2)
    show ?thesis
      by (cases "channelMemberBody storeApp x t") simp
  next
    case None
    with body Cons.prems(1) have rest: "channelMembersLoop storeApp xs s1 = (r, s')"
      by simp
    have "grows (world s1) (world s')"
      using channelMembersLoop_grows [of s1 xs] rest by simp
    with channelMemberBody_again [OF body, of t] None Cons.prems(2)
    obtain t1 where t1: "channelMemberBody storeApp x t = (None, t1)" "world t1 = world t"
      by (cases "channelMemberBody storeApp x t") auto
    from Cons.IH [OF rest, of t1] t1 Cons.prems(2)
    show ?thesis by simp
  qed
qed

lemma CreateDefaultMemberships_again:
  assumes "CreateDefaultMemberships storeApp since s = (r, s')" and "world t = world s'"
  shows "fst (CreateDefaultMemberships storeApp since t) = r \<and>
         world (snd (CreateDefaultMemberships storeApp since t)) = world t"
proof (cases "st_Failing (world s) (CallTeamMembersToAdd since)")
  case (Some e)
  with assms have "r = Some e" "world s' = world s"
    by (auto simp: CreateDefaultMemberships_def invoke_def storeApp_sel query_def)
  with assms(2) Some show ?thesis
    by (simp add: CreateDefaultMemberships_def invoke_def storeApp_sel query_def)
next
  case None
  let ?q1 = "Call (CallTeamMembersToAdd since)" and ?q2 = "Call (CallChannelMembersToAdd since)"
  let ?tms = "st_TeamMembersToAdd (world s) since"
  let ?s0 = "\<lparr>world = world s, trace = trace s @ [?q1]\<rparr>"
  let ?t0 = "\<lparr>world = world t, trace = trace t @ [?q1]\<rparr>"
  obtain r1 s1 where loop1: "teamMembersLoop storeApp ?tms ?s0 = (r1, s1)"
    by (cases "teamMembersLoop storeApp ?tms ?s0")
  have g1: "grows (world s) (world s1)"
    using teamMembersLoop_grows [of ?s0 ?tms] loop1 by simp
  have g': "grows (world s) (world s')"
  proof (cases r1)
    case (Some e)
    with assms(1) None loop1 have "s' = s1"
      by (simp add: CreateDefaultMemberships_def invoke_def storeApp_sel query_def)
    with g1 show ?thesis by simp
  next
    case r1: None
    show ?thesis
    proof (cases "st_Failing (world s1) (CallChannelMembersToAdd since)")
      case (Some e)
      with assms(1) None loop1 r1 have "world s' = world s1"
        by (auto simp: CreateDefaultMemberships_def invoke_def storeApp_sel query_def)
      with g1 show ?thesis by simp
    next
      case q2: None
      let ?s2 = "\<lparr>world = world s1, trace = trace s1 @ [?q2]\<rparr>"
      from assms(1) None loop1 r1 q2
      have "s' = snd (channelMembersLoop storeApp (st_ChannelMembersToAdd (world s1) since) ?s2)"
        by (simp add: CreateDefaultMemberships_def invoke_def storeApp_sel query_def)
      then show ?thesis
        using channelMembersLoop_grows [of ?s2 "st_ChannelMembersToAdd (world s1) since"] g1
        by (auto intro: grows_trans)
    qed
  qed
  have same: "st_Failing (world t) = st_Failing (world s)"
    "st_TeamMembersToAdd (world t) = st_TeamMembersToAdd (world s)"
    "st_ChannelMembersToAdd (world t) = st_ChannelMembersToAdd (world s)"
    using g' assms(2) by (simp_all add: grows_def)
  have same1: "st_Failing (world s1) = st_Failing (world s)"
    "st_ChannelMembersToAdd (world s1) = st_ChannelMembersToAdd (world s)"
    using g1 by (simp_all add: grows_def)
  show ?thesis
  proof (cases r1)
    case (Some e)
    with assms(1) None loop1 have r: "r = Some e" and s': "s' = s1"
      by (simp_all add: CreateDefaultMemberships_def invoke_def storeApp_sel query_def)
    have "grows (world s1) (world ?t0)"
      using assms(2) s' by (simp add: grows_refl)
    from teamMembersLoop_again [OF loop1 this] show ?thesis
      using None same r Some
      by (cases "teamMembersLoop storeApp ?tms ?t0")
         (simp add: CreateDefaultMemberships_def invoke_def storeApp_sel query_def)
  next
    case r1: None
    show ?thesis
    proof (cases "st_Failing (world s) (CallChannelMembersToAdd since)")
      case (Some e)
      with assms(1) None loop1 r1 same1 have r: "r = Some e" and s': "world s' = world s1"
        by (auto simp: CreateDefaultMemberships_def invoke_def storeApp_sel query_def)
      have "grows (world s1) (world ?t0)"
        using assms(2) s' by (simp add: grows_refl)
      from teamMembersLoop_again [OF loop1 this] show ?thesis
        using None same r r1 Some
        by (cases "teamMembersLoop storeApp ?tms ?t0")
           (simp add: CreateDefaultMemberships_def invoke_def storeApp_sel query_def)
    next
      case q2: None
      let ?cms = "st_ChannelMembersToAdd (world s) since"
      let ?s2 = "\<lparr>world = world s1, trace = trace s1 @ [?q2]\<rparr>"
      from assms(1) None loop1 r1 q2 same1
      have loop2: "channelMembersLoop storeApp ?cms ?s2 = (r, s')"
        by (simp add: CreateDefaultMemberships_def invoke_def storeApp_sel query_def)
      have "grows (world s1) (world s')"
        using channelMembersLoop_grows [of ?s2 ?cms] loop2 by simp
      then have "grows (world s1) (world ?t0)"
        using assms(2) by simp
      from teamMembersLoop_again [OF loop1 this] r1
      obtain t1 where t1: "teamMembersLoop storeApp ?tms ?t0 = (None, t1)" "world t1 = world t"
        by (cases "teamMembersLoop storeApp ?tms ?t0") auto
      let ?t2 = "\<lparr>world = world t1, trace = trace t1 @ [?q2]\<rparr>"
      have "world ?t2 = world s'"
        using t1(2) assms(2) by simp
      from channelMembersLoop_again [OF loop2 this] show ?thesis
        using None same q2 t1
        by (simp add: CreateDefaultMemberships_def invoke_def storeApp_sel query_def)
    qed
  qed
qed

section \<open>The claims\<close>

text \<open>
  C1. On the store of the specification, \<^verbatim>\<open>SyncSyncableRoles\<close> succeeds for a
  team and for a channel whenever none of its three calls (the permitted-admins query
  and the two bulk updates of that syncable type) fails. After every successful run
  the syncable type is Team or Channel, the syncable has exactly the members it had,
  and each of them is an admin if and only if the user is in the permitted-admins
  list that the query returned for the call.
\<close>

theorem admin_iff_permitted:
  "(st_Failing (world s) (CallPermittedSyncableAdmins syncableID GroupSyncableTypeTeam) = None \<and>
    st_Failing (world s)
      (CallTeamUpdateMembersRole syncableID
         (st_PermittedAdmins (world s) syncableID GroupSyncableTypeTeam) Equals True) = None \<and>
    st_Failing (world s)
      (CallTeamUpdateMembersRole syncableID
         (st_PermittedAdmins (world s) syncableID GroupSyncableTypeTeam) NotEquals False) = None
      \<longrightarrow>
    fst (SyncSyncableRoles storeApp syncableID GroupSyncableTypeTeam s) = None) \<and>
   (st_Failing (world s) (CallPermittedSyncableAdmins syncableID GroupSyncableTypeChannel) = None \<and>
    st_Failing (world s)
      (CallChannelUpdateMembersRole syncableID
         (st_PermittedAdmins (world s) syncableID GroupSyncableTypeChannel) Equals True) = None \<and>
    st_Failing (world s)
      (CallChannelUpdateMembersRole syncableID
         (st_PermittedAdmins (world s) syncableID GroupSyncableTypeChannel) NotEquals False) = None
      \<longrightarrow>
    fst (SyncSyncableRoles storeApp syncableID GroupSyncableTypeChannel s) = None) \<and>
   (fst (SyncSyncableRoles storeApp syncableID syncableType s) = None \<longrightarrow>
      (syncableType = GroupSyncableTypeTeam \<or> syncableType = GroupSyncableTypeChannel) \<and>
      (\<forall>u. members_of syncableType
              (world (snd (SyncSyncableRoles storeApp syncableID syncableType s)))
              (syncableID, u) =
            (case members_of syncableType (world s) (syncableID, u) of
               None \<Rightarrow> None
             | Some _ \<Rightarrow>
                 Some (u \<in> set (st_PermittedAdmins (world s) syncableID syncableType)))))"
proof (intro conjI impI)
  assume "st_Failing (world s) (CallPermittedSyncableAdmins syncableID GroupSyncableTypeTeam) = None \<and>
    st_Failing (world s)
      (CallTeamUpdateMembersRole syncableID
         (st_PermittedAdmins (world s) syncableID GroupSyncableTypeTeam) Equals True) = None \<and>
    st_Failing (world s)
      (CallTeamUpdateMembersRole syncableID
         (st_PermittedAdmins (world s) syncableID GroupSyncableTypeTeam) NotEquals False) = None"
  then show "fst (SyncSyncableRoles storeApp syncableID GroupSyncableTypeTeam s) = None"
    by (simp add: SyncSyncableRoles_def updateFunc_def store_simps invoke_def emit_def)
next
  assume "st_Failing (world s) (CallPermittedSyncableAdmins syncableID GroupSyncableTypeChannel) = None \<and>
    st_Failing (world s)
      (CallChannelUpdateMembersRole syncableID
         (st_PermittedAdmins (world s) syncableID GroupSyncableTypeChannel) Equals True) = None \<and>
    st_Failing (world s)
      (CallChannelUpdateMembersRole syncableID
         (st_PermittedAdmins (world s) syncableID GroupSyncableTypeChannel) NotEquals False) = None"
  then show "fst (SyncSyncableRoles storeApp syncableID GroupSyncableTypeChannel s) = None"
    by (simp add: SyncSyncableRoles_def updateFunc_def store_simps invoke_def emit_def)
next
  assume ok: "fst (SyncSyncableRoles storeApp syncableID syncableType s) = None"
  from SyncSyncableRoles_store_success [OF result_None [OF ok]]
  show "syncableType = GroupSyncableTypeTeam \<or> syncableType = GroupSyncableTypeChannel"
    by simp
next
  assume ok: "fst (SyncSyncableRoles storeApp syncableID syncableType s) = None"
  from SyncSyncableRoles_store_success [OF result_None [OF ok]]
  show "\<forall>u. members_of syncableType
              (world (snd (SyncSyncableRoles storeApp syncableID syncableType s)))
              (syncableID, u) =
            (case members_of syncableType (world s) (syncableID, u) of
               None \<Rightarrow> None
             | Some _ \<Rightarrow>
                 Some (u \<in> set (st_PermittedAdmins (world s) syncableID syncableType)))"
    by (simp add: update_roles_twice)
qed

theorem admin_iff_permitted_witness:
  "st_TeamMembers demo_store (''t1'', ''u5'') = Some True \<and>
   st_TeamMembers demo_store (''t1'', ''u2'') = Some False \<and>
   st_ChannelMembers demo_store (''c1'', ''u5'') = Some True \<and>
   st_ChannelMembers demo_store (''c1'', ''u2'') = Some False \<and>
   st_PermittedAdmins demo_store ''t1'' GroupSyncableTypeTeam = [''u2''] \<and>
   st_PermittedAdmins demo_store ''c1'' GroupSyncableTypeChannel = [''u2''] \<and>
   fst (SyncSyncableRoles storeApp ''t1'' GroupSyncableTypeTeam (start demo_store)) = None \<and>
   members_of GroupSyncableTypeTeam
     (world (snd (SyncSyncableRoles storeApp ''t1'' GroupSyncableTypeTeam (start demo_store))))
     (''t1'', ''u5'') = Some False \<and>
   members_of GroupSyncableTypeTeam
     (world (snd (SyncSyncableRoles storeApp ''t1'' GroupSyncableTypeTeam (start demo_store))))
     (''t1'', ''u2'') = Some True \<and>
   members_of GroupSyncableTypeTeam
     (world (snd (SyncSyncableRoles storeApp ''t1'' GroupSyncableTypeTeam (start demo_store))))
     (''t1'', ''u1'') = None \<and>
   fst (SyncSyncableRoles storeApp ''c1'' GroupSyncableTypeChannel (start demo_store)) = None \<and>
   members_of GroupSyncableTypeChannel
     (world (snd (SyncSyncableRoles storeApp ''c1'' GroupSyncableTypeChannel (start demo_store))))
     (''c1'', ''u5'') = Some False \<and>
   members_of GroupSyncableTypeChannel
     (world (snd (SyncSyncableRoles storeApp ''c1'' GroupSyncableTypeChannel (start demo_store))))
     (''c1'', ''u2'') = Some True \<and>
   members_of GroupSyncableTypeChannel
     (world (snd (SyncSyncableRoles storeApp ''c1'' GroupSyncableTypeChannel (start demo_store))))
     (''c1'', ''u1'') = None"
proof -
  let ?team = "SyncSyncableRoles storeApp ''t1'' GroupSyncableTypeTeam (start demo_store)"
  let ?chan = "SyncSyncableRoles storeApp ''c1'' GroupSyncableTypeChannel (start demo_store)"
  have nothing_fails: "\<And>c. st_Failing (world (start demo_store)) c = None"
    by (simp add: demo_store_def start_def)
  have before:
    "members_of GroupSyncableTypeTeam (world (start demo_store)) (''t1'', ''u5'') = Some True"
    "members_of GroupSyncableTypeTeam (world (start demo_store)) (''t1'', ''u2'') = Some False"
    "members_of GroupSyncableTypeTeam (world (start demo_store)) (''t1'', ''u1'') = None"
    "members_of GroupSyncableTypeChannel (world (start demo_store)) (''c1'', ''u5'') = Some True"
    "members_of GroupSyncableTypeChannel (world (start demo_store)) (''c1'', ''u2'') = Some False"
    "members_of GroupSyncableTypeChannel (world (start demo_store)) (''c1'', ''u1'') = None"
    "st_PermittedAdmins (world (start demo_store)) ''t1'' GroupSyncableTypeTeam = [''u2'']"
    "st_PermittedAdmins (world (start demo_store)) ''c1'' GroupSyncableTypeChannel = [''u2'']"
    by (simp_all add: members_of_def demo_store_def start_def)
  note team = admin_iff_permitted [of "start demo_store" "''t1''" GroupSyncableTypeTeam]
  note chan = admin_iff_permitted [of "start demo_store" "''c1''" GroupSyncableTypeChannel]
  have team_ok: "fst ?team = None"
    using team nothing_fails by blast
  have chan_ok: "fst ?chan = None"
    using chan nothing_fails by blast
  have team_after: "\<And>u. members_of GroupSyncableTypeTeam (world (snd ?team)) (''t1'', u) =
          (case members_of GroupSyncableTypeTeam (world (start demo_store)) (''t1'', u) of
             None \<Rightarrow> None
           | Some _ \<Rightarrow>
               Some (u \<in> set (st_PermittedAdmins (world (start demo_store)) ''t1''
                                 GroupSyncableTypeTeam)))"
    using team team_ok by blast
  have chan_after: "\<And>u. members_of GroupSyncableTypeChannel (world (snd ?chan)) (''c1'', u) =
          (case members_of GroupSyncableTypeChannel (world (start demo_store)) (''c1'', u) of
             None \<Rightarrow> None
           | Some _ \<Rightarrow>
               Some (u \<in> set (st_PermittedAdmins (world (start demo_store)) ''c1''
                                 GroupSyncableTypeChannel)))"
    using chan chan_ok by blast
  show ?thesis
    using team_ok chan_ok before
      team_after [of "''u5''"] team_after [of "''u2''"] team_after [of "''u1''"]
      chan_after [of "''u5''"] chan_after [of "''u2''"] chan_after [of "''u1''"]
    by (simp add: members_of_def start_def)
qed

text \<open>
  C2. When \<^verbatim>\<open>AddChannelMember\<close> fails for a pair with the conflict
  \<^verbatim>\<open>api.channel.add_user.to.channel.failed.deleted.app_error\<close>, the conflict is
  logged with \<^verbatim>\<open>Log.Info\<close> and the method goes on with the remaining pairs, so
  its result is theirs; any other \<^verbatim>\<open>AddChannelMember\<close> error ends the method
  and is returned.
\<close>

theorem conflict_tolerated:
  assumes teams: "TeamMembersToAdd a since (world s) = (Inr tms, w0)"
    and teams_ok: "teamMembersLoop a tms
           \<lparr>world = w0, trace = trace s @ [Call (CallTeamMembersToAdd since)]\<rparr> = (None, s1)"
    and channels: "ChannelMembersToAdd a since (world s1) = (Inr (pre @ uc # rest), w2)"
    and pre_ok: "channelMembersLoop a pre
           \<lparr>world = w2, trace = trace s1 @ [Call (CallChannelMembersToAdd since)]\<rparr> = (None, s3)"
    and team_first: "teamMembershipFirst a uc s3 = (Inr channel, s4)"
    and add_fails: "AddChannelMember a (uc_UserID uc) channel [] [] (world s4) = (Some err, w5)"
  shows "CreateDefaultMemberships a since s =
           (if er_Id err = ''api.channel.add_user.to.channel.failed.deleted.app_error''
            then channelMembersLoop a rest
                   \<lparr>world = w5,
                    trace = trace s4 @
                      [Call (CallAddChannelMember (uc_UserID uc) channel [] []),
                       not_adding_user (uc_UserID uc) (uc_ChannelID uc),
                       added_channelmember (uc_UserID uc) (uc_ChannelID uc)]\<rparr>
            else (Some err,
                  \<lparr>world = w5,
                   trace = trace s4 @ [Call (CallAddChannelMember (uc_UserID uc) channel [] [])]\<rparr>))"
  unfolding CreateDefaultMemberships_second_loop [OF teams teams_ok channels pre_ok]
  using team_first add_fails
  by (simp add: channelMemberBody_def addUserToChannel_def invoke_def emit_def)

theorem conflict_tolerated_witness:
  "fst (CreateDefaultMemberships storeApp 0
          (start (failing_at (CallAddChannelMember ''u4'' c1 [] []) left_team_conflict demo_store))) =
     None \<and>
   trace (snd (CreateDefaultMemberships storeApp 0
          (start (failing_at (CallAddChannelMember ''u4'' c1 [] []) left_team_conflict demo_store)))) =
     [Call (CallTeamMembersToAdd 0),
      Call (CallAddTeamMember ''t1'' ''u1''), added_teammember ''u1'' ''t1'',
      Call (CallAddTeamMember ''t1'' ''u2''), added_teammember ''u2'' ''t1'',
      Call (CallAddTeamMember ''t1'' ''u3''), added_teammember ''u3'' ''t1'',
      Call (CallChannelMembersToAdd 0),
      Call (CallGetChannel ''c1''), Call (CallGetTeamMember ''t1'' ''u4''),
      Call (CallAddTeamMember ''t1'' ''u4''), added_teammember ''u4'' ''t1'',
      Call (CallAddChannelMember ''u4'' c1 [] []),
      not_adding_user ''u4'' ''c1'', added_channelmember ''u4'' ''c1'',
      Call (CallGetChannel ''c1''), Call (CallGetTeamMember ''t1'' ''u1''),
      Call (CallAddChannelMember ''u1'' c1 [] []), added_channelmember ''u1'' ''c1'']"
proof -
  let ?w = "failing_at (CallAddChannelMember ''u4'' c1 [] []) left_team_conflict demo_store"
  let ?u4 = "\<lparr>uc_UserID = ''u4'', uc_ChannelID = ''c1''\<rparr>"
  let ?u1 = "\<lparr>uc_UserID = ''u1'', uc_ChannelID = ''c1''\<rparr>"
  let ?s0 = "\<lparr>world = ?w, trace = trace (start ?w) @ [Call (CallTeamMembersToAdd 0)]\<rparr>"
  let ?s1 = "snd (teamMembersLoop storeApp (st_TeamMembersToAdd ?w 0) ?s0)"
  let ?s2 = "\<lparr>world = world ?s1, trace = trace ?s1 @ [Call (CallChannelMembersToAdd 0)]\<rparr>"
  let ?s4 = "snd (teamMembershipFirst storeApp ?u4 ?s2)"
  have teams: "TeamMembersToAdd storeApp 0 (world (start ?w)) = (Inr (st_TeamMembersToAdd ?w 0), ?w)"
    by (simp add: run_simps)
  have teams_ok: "teamMembersLoop storeApp (st_TeamMembersToAdd ?w 0) ?s0 = (None, ?s1)"
    by (rule result_None) (simp add: run_simps)
  have channels: "ChannelMembersToAdd storeApp 0 (world ?s1) = (Inr ([] @ ?u4 # [?u1]), world ?s1)"
    by (simp add: run_simps)
  have pre_ok: "channelMembersLoop storeApp [] ?s2 = (None, ?s2)"
    by simp
  have team_first: "teamMembershipFirst storeApp ?u4 ?s2 = (Inr c1, ?s4)"
    by (simp add: run_simps teamMembershipFirst_def firstAddUserToTeam_def prod_eq_iff)
  have add_fails: "AddChannelMember storeApp (uc_UserID ?u4) c1 [] [] (world ?s4) =
                     (Some left_team_conflict, world ?s4)"
    by (simp add: run_simps teamMembershipFirst_def firstAddUserToTeam_def)
  show ?thesis
    using conflict_tolerated [OF teams teams_ok channels pre_ok team_first add_fails]
    by (simp add: start_def left_team_conflict_def NewAppError_def)
       (simp add: run_simps channelMemberBody_def teamMembershipFirst_def firstAddUserToTeam_def
          addUserToChannel_def added_teammember_def not_adding_user_def added_channelmember_def)
qed

text \<open>
  C3. A \<^verbatim>\<open>GetTeamMember\<close> error other than
  \<^verbatim>\<open>store.sql_team.get_member.missing.app_error\<close> ends the method and is returned.
  The missing-membership error does not: with no membership returned, the method
  calls \<^verbatim>\<open>AddTeamMember\<close> for the channel's team, and only after it has succeeded
  (and been logged) \<^verbatim>\<open>AddChannelMember\<close> for the pair; if \<^verbatim>\<open>AddTeamMember\<close>
  fails, the method ends with its error.
\<close>

theorem team_before_channel:
  assumes teams: "TeamMembersToAdd a since (world s) = (Inr tms, w0)"
    and teams_ok: "teamMembersLoop a tms
           \<lparr>world = w0, trace = trace s @ [Call (CallTeamMembersToAdd since)]\<rparr> = (None, s1)"
    and channels: "ChannelMembersToAdd a since (world s1) = (Inr (pre @ uc # rest), w2)"
    and pre_ok: "channelMembersLoop a pre
           \<lparr>world = w2, trace = trace s1 @ [Call (CallChannelMembersToAdd since)]\<rparr> = (None, s3)"
    and resolved: "GetChannel a (uc_ChannelID uc) (world s3) = (Inr channel, w4)"
    and lookup: "GetTeamMember a (ch_TeamId channel) (uc_UserID uc) w4 = ((tmem, Some e), w5)"
  shows "(er_Id e \<noteq> ''store.sql_team.get_member.missing.app_error'' \<longrightarrow>
            CreateDefaultMemberships a since s =
              (Some e,
               \<lparr>world = w5,
                trace = trace s3 @
                  [Call (CallGetChannel (uc_ChannelID uc)),
                   Call (CallGetTeamMember (ch_TeamId channel) (uc_UserID uc))]\<rparr>)) \<and>
         (er_Id e = ''store.sql_team.get_member.missing.app_error'' \<and> tmem = None \<longrightarrow>
            (case AddTeamMember a (ch_TeamId channel) (uc_UserID uc) w5 of
               (Some err, w6) \<Rightarrow>
                 CreateDefaultMemberships a since s =
                   (Some err,
                    \<lparr>world = w6,
                     trace = trace s3 @
                       [Call (CallGetChannel (uc_ChannelID uc)),
                        Call (CallGetTeamMember (ch_TeamId channel) (uc_UserID uc)),
                        Call (CallAddTeamMember (ch_TeamId channel) (uc_UserID uc))]\<rparr>)
             | (None, w6) \<Rightarrow>
                 (\<exists>post. trace (snd (CreateDefaultMemberships a since s)) =
                    trace s3 @
                      [Call (CallGetChannel (uc_ChannelID uc)),
                       Call (CallGetTeamMember (ch_TeamId channel) (uc_UserID uc)),
                       Call (CallAddTeamMember (ch_TeamId channel) (uc_UserID uc)),
                       added_teammember (uc_UserID uc) (ch_TeamId channel),
                       Call (CallAddChannelMember (uc_UserID uc) channel [] [])] @ post)))"
proof (intro conjI impI)
  assume "er_Id e \<noteq> ''store.sql_team.get_member.missing.app_error''"
  then show "CreateDefaultMemberships a since s =
              (Some e,
               \<lparr>world = w5,
                trace = trace s3 @
                  [Call (CallGetChannel (uc_ChannelID uc)),
                   Call (CallGetTeamMember (ch_TeamId channel) (uc_UserID uc))]\<rparr>)"
    unfolding CreateDefaultMemberships_second_loop [OF teams teams_ok channels pre_ok]
    using resolved lookup
    by (simp add: channelMemberBody_def teamMembershipFirst_def invoke_def)
next
  assume missing: "er_Id e = ''store.sql_team.get_member.missing.app_error'' \<and> tmem = None"
  let ?s5 = "\<lparr>world = w5,
              trace = trace s3 @
                [Call (CallGetChannel (uc_ChannelID uc)),
                 Call (CallGetTeamMember (ch_TeamId channel) (uc_UserID uc))]\<rparr>"
  show "case AddTeamMember a (ch_TeamId channel) (uc_UserID uc) w5 of
               (Some err, w6) \<Rightarrow>
                 CreateDefaultMemberships a since s =
                   (Some err,
                    \<lparr>world = w6,
                     trace = trace s3 @
                       [Call (CallGetChannel (uc_ChannelID uc)),
                        Call (CallGetTeamMember (ch_TeamId channel) (uc_UserID uc)),
                        Call (CallAddTeamMember (ch_TeamId channel) (uc_UserID uc))]\<rparr>)
             | (None, w6) \<Rightarrow>
                 (\<exists>post. trace (snd (CreateDefaultMemberships a since s)) =
                    trace s3 @
                      [Call (CallGetChannel (uc_ChannelID uc)),
                       Call (CallGetTeamMember (ch_TeamId channel) (uc_UserID uc)),
                       Call (CallAddTeamMember (ch_TeamId channel) (uc_UserID uc)),
                       added_teammember (uc_UserID uc) (ch_TeamId channel),
                       Call (CallAddChannelMember (uc_UserID uc) channel [] [])] @ post)"
  proof (cases "AddTeamMember a (ch_TeamId channel) (uc_UserID uc) w5")
    case (Pair r w6)
    show ?thesis
    proof (cases r)
      case (Some err)
      show ?thesis
        unfolding CreateDefaultMemberships_second_loop [OF teams teams_ok channels pre_ok]
        using resolved lookup missing Pair Some
        by (simp add: channelMemberBody_def teamMembershipFirst_def firstAddUserToTeam_def
              invoke_def)
    next
      case None
      let ?s6 = "\<lparr>world = w6,
                  trace = trace s3 @
                    [Call (CallGetChannel (uc_ChannelID uc)),
                     Call (CallGetTeamMember (ch_TeamId channel) (uc_UserID uc)),
                     Call (CallAddTeamMember (ch_TeamId channel) (uc_UserID uc)),
                     added_teammember (uc_UserID uc) (ch_TeamId channel)]\<rparr>"
      have body: "channelMemberBody a uc s3 = addUserToChannel a uc channel ?s6"
        using resolved lookup missing Pair None
        by (simp add: channelMemberBody_def teamMembershipFirst_def firstAddUserToTeam_def
              invoke_def emit_def)
      obtain p1 where p1: "trace (snd (addUserToChannel a uc channel ?s6)) =
          trace ?s6 @ Call (CallAddChannelMember (uc_UserID uc) channel [] []) # p1"
        using addUserToChannel_calls_first by blast
      have "\<exists>p2. trace (snd (CreateDefaultMemberships a since s)) =
               trace (snd (addUserToChannel a uc channel ?s6)) @ p2"
      proof (cases "addUserToChannel a uc channel ?s6")
        case (Pair r' s7)
        show ?thesis
        proof (cases r')
          case None
          then show ?thesis
            unfolding CreateDefaultMemberships_second_loop [OF teams teams_ok channels pre_ok]
            using body Pair channelMembersLoop_extends [of a rest s7] by simp
        next
          case (Some e')
          then show ?thesis
            unfolding CreateDefaultMemberships_second_loop [OF teams teams_ok channels pre_ok]
            using body Pair by simp
        qed
      qed
      then obtain p2 where "trace (snd (CreateDefaultMemberships a since s)) =
               trace (snd (addUserToChannel a uc channel ?s6)) @ p2" ..
      with p1 have "trace (snd (CreateDefaultMemberships a since s)) =
                    trace s3 @
                      [Call (CallGetChannel (uc_ChannelID uc)),
                       Call (CallGetTeamMember (ch_TeamId channel) (uc_UserID uc)),
                       Call (CallAddTeamMember (ch_TeamId channel) (uc_UserID uc)),
                       added_teammember (uc_UserID uc) (ch_TeamId channel),
                       Call (CallAddChannelMember (uc_UserID uc) channel [] [])] @ (p1 @ p2)"
        by simp
      then show ?thesis using Pair None by (simp del: append_assoc)
    qed
  qed
qed

theorem team_before_channel_witness:
  "\<exists>post.
     trace (snd (CreateDefaultMemberships storeApp 0 (start demo_store))) =
       [Call (CallTeamMembersToAdd 0),
        Call (CallAddTeamMember ''t1'' ''u1''), added_teammember ''u1'' ''t1'',
        Call (CallAddTeamMember ''t1'' ''u2''), added_teammember ''u2'' ''t1'',
        Call (CallAddTeamMember ''t1'' ''u3''), added_teammember ''u3'' ''t1'',
        Call (CallChannelMembersToAdd 0)] @
       [Call (CallGetChannel ''c1''), Call (CallGetTeamMember ''t1'' ''u4''),
        Call (CallAddTeamMember ''t1'' ''u4''), added_teammember ''u4'' ''t1'',
        Call (CallAddChannelMember ''u4'' c1 [] [])] @ post"
proof -
  let ?w = "demo_store"
  let ?u4 = "\<lparr>uc_UserID = ''u4'', uc_ChannelID = ''c1''\<rparr>"
  let ?u1 = "\<lparr>uc_UserID = ''u1'', uc_ChannelID = ''c1''\<rparr>"
  let ?s0 = "\<lparr>world = ?w, trace = trace (start ?w) @ [Call (CallTeamMembersToAdd 0)]\<rparr>"
  let ?s1 = "snd (teamMembersLoop storeApp (st_TeamMembersToAdd ?w 0) ?s0)"
  let ?s2 = "\<lparr>world = world ?s1, trace = trace ?s1 @ [Call (CallChannelMembersToAdd 0)]\<rparr>"
  have teams: "TeamMembersToAdd storeApp 0 (world (start ?w)) = (Inr (st_TeamMembersToAdd ?w 0), ?w)"
    by (simp add: run_simps)
  have teams_ok: "teamMembersLoop storeApp (st_TeamMembersToAdd ?w 0) ?s0 = (None, ?s1)"
    by (rule result_None) (simp add: run_simps)
  have channels: "ChannelMembersToAdd storeApp 0 (world ?s1) = (Inr ([] @ ?u4 # [?u1]), world ?s1)"
    by (simp add: run_simps)
  have pre_ok: "channelMembersLoop storeApp [] ?s2 = (None, ?s2)"
    by simp
  have resolved: "GetChannel storeApp (uc_ChannelID ?u4) (world ?s2) = (Inr c1, world ?s2)"
    by (simp add: run_simps)
  have lookup: "GetTeamMember storeApp (ch_TeamId c1) (uc_UserID ?u4) (world ?s2) =
                  ((None, Some team_member_missing), world ?s2)"
    by (simp add: run_simps)
  have missing: "er_Id team_member_missing = ''store.sql_team.get_member.missing.app_error''"
    by (simp add: team_member_missing_def NewAppError_def)
  obtain r w6 where
    added: "AddTeamMember storeApp (ch_TeamId c1) (uc_UserID ?u4) (world ?s2) = (r, w6)"
    by (cases "AddTeamMember storeApp (ch_TeamId c1) (uc_UserID ?u4) (world ?s2)")
  have r: "r = None"
    using added by (simp add: run_simps)
  have tr: "trace ?s2 =
       [Call (CallTeamMembersToAdd 0),
        Call (CallAddTeamMember ''t1'' ''u1''), added_teammember ''u1'' ''t1'',
        Call (CallAddTeamMember ''t1'' ''u2''), added_teammember ''u2'' ''t1'',
        Call (CallAddTeamMember ''t1'' ''u3''), added_teammember ''u3'' ''t1'',
        Call (CallChannelMembersToAdd 0)]"
    by (simp add: run_simps)
  have ids: "uc_ChannelID ?u4 = ''c1''" "uc_UserID ?u4 = ''u4''" "ch_TeamId c1 = ''t1''"
    by (simp_all add: c1_def)
  from team_before_channel [OF teams teams_ok channels pre_ok resolved lookup] missing
  have "\<exists>post. trace (snd (CreateDefaultMemberships storeApp 0 (start ?w))) =
               trace ?s2 @
                 [Call (CallGetChannel (uc_ChannelID ?u4)),
                  Call (CallGetTeamMember (ch_TeamId c1) (uc_UserID ?u4)),
                  Call (CallAddTeamMember (ch_TeamId c1) (uc_UserID ?u4)),
                  added_teammember (uc_UserID ?u4) (ch_TeamId c1),
                  Call (CallAddChannelMember (uc_UserID ?u4) c1 [] [])] @ post"
    unfolding added r by simp
  then show ?thesis
    unfolding tr ids .
qed

text \<open>
  C4. In every run of \<^verbatim>\<open>DeleteGroupConstrainedMemberships\<close>, whatever the
  collaborators do, the events of the run split into a first part without any
  \<^verbatim>\<open>RemoveUserFromTeam\<close> call and a second part without any
  \<^verbatim>\<open>RemoveUserFromChannel\<close> call: every channel removal comes before every team
  removal. On the store of the specification, after a successful run no pair returned
  by \<^verbatim>\<open>ChannelMembersToRemove\<close> is a member of its channel.
\<close>

theorem channel_removals_first:
  "(\<exists>chans teams.
      trace (snd (DeleteGroupConstrainedMemberships a s)) = trace s @ chans @ teams \<and>
      filter is_team_removal chans = [] \<and> filter is_channel_removal teams = []) \<and>
   (fst (DeleteGroupConstrainedMemberships storeApp t) = None \<longrightarrow>
      (\<forall>cm \<in> set (st_ChannelMembersToRemove (world t)).
         st_ChannelMembers (world (snd (DeleteGroupConstrainedMemberships storeApp t)))
           (cm_ChannelId cm, cm_UserId cm) = None))"
  using removal_order [of a s]
    removed_pairs_not_members [OF result_None, of t]
  by blast

theorem channel_removals_first_witness:
  "fst (DeleteGroupConstrainedMemberships storeApp (start demo_store)) = None \<and>
   st_ChannelMembersToRemove demo_store = [\<lparr>cm_ChannelId = ''c1'', cm_UserId = ''u5''\<rparr>] \<and>
   st_ChannelMembers demo_store (''c1'', ''u5'') = Some True \<and>
   st_ChannelMembers (world (snd (DeleteGroupConstrainedMemberships storeApp (start demo_store))))
     (''c1'', ''u5'') = None \<and>
   trace (snd (DeleteGroupConstrainedMemberships storeApp (start demo_store))) =
     [Call CallChannelMembersToRemove, Call (CallGetChannel ''c1''),
      Call (CallRemoveUserFromChannel ''u5'' [] c1), removed_channelmember ''u5'' ''c1'',
      Call CallTeamMembersToRemove, Call (CallRemoveUserFromTeam ''t1'' ''u5'' []),
      removed_teammember ''u5'' ''t1'']"
proof -
  let ?run = "DeleteGroupConstrainedMemberships storeApp (start demo_store)"
  have ok: "fst ?run = None"
    by (simp add: DeleteGroupConstrainedMemberships_def run_simps)
  have tr: "trace (snd ?run) =
     [Call CallChannelMembersToRemove, Call (CallGetChannel ''c1''),
      Call (CallRemoveUserFromChannel ''u5'' [] c1), removed_channelmember ''u5'' ''c1'',
      Call CallTeamMembersToRemove, Call (CallRemoveUserFromTeam ''t1'' ''u5'' []),
      removed_teammember ''u5'' ''t1'']"
    by (simp add: DeleteGroupConstrainedMemberships_def run_simps)
  have pairs: "st_ChannelMembersToRemove (world (start demo_store)) =
                 [\<lparr>cm_ChannelId = ''c1'', cm_UserId = ''u5''\<rparr>]"
    "st_ChannelMembers demo_store (''c1'', ''u5'') = Some True"
    by (simp_all add: demo_store_def start_def)
  from channel_removals_first [of storeApp "start demo_store" "start demo_store"] ok
  have "\<forall>cm \<in> set (st_ChannelMembersToRemove (world (start demo_store))).
          st_ChannelMembers (world (snd ?run)) (cm_ChannelId cm, cm_UserId cm) = None"
    by blast
  then have "st_ChannelMembers (world (snd ?run)) (''c1'', ''u5'') = None"
    unfolding pairs by simp
  then show ?thesis
    using ok tr pairs by (simp add: start_def)
qed

text \<open>
  C5. When an \<^verbatim>\<open>AddTeamMember\<close> of the first loop fails, the method ends at once
  with that error: the pairs after the failing one are not processed, the channel
  phase does not start, and nothing undoes the additions made before (the world is
  the one the failing call left, and the trace ends with the failing call).
\<close>

theorem team_add_failure_aborts:
  assumes query: "TeamMembersToAdd a since (world s) = (Inr (pre @ p # post), w0)"
    and before: "teamMembersLoop a pre
                   \<lparr>world = w0, trace = trace s @ [Call (CallTeamMembersToAdd since)]\<rparr> = (None, s1)"
    and fails: "AddTeamMember a (ut_TeamID p) (ut_UserID p) (world s1) = (Some err, w2)"
  shows "CreateDefaultMemberships a since s =
           (Some err,
            \<lparr>world = w2,
             trace = trace s @ [Call (CallTeamMembersToAdd since)] @ concat (map team_addition pre)
                       @ [Call (CallAddTeamMember (ut_TeamID p) (ut_UserID p))]\<rparr>)"
proof -
  have tr: "trace s1 = trace s @ [Call (CallTeamMembersToAdd since)] @ concat (map team_addition pre)"
    using teamMembersLoop_trace [OF before] by simp
  have "teamMembersLoop a (pre @ p # post)
          \<lparr>world = w0, trace = trace s @ [Call (CallTeamMembersToAdd since)]\<rparr> =
        (Some err, \<lparr>world = w2,
             trace = trace s1 @ [Call (CallAddTeamMember (ut_TeamID p) (ut_UserID p))]\<rparr>)"
    using before fails by (simp add: teamMembersLoop_append invoke_def)
  then show ?thesis
    using query tr by (simp add: CreateDefaultMemberships_def invoke_def)
qed

theorem team_add_failure_aborts_witness:
  "fst (CreateDefaultMemberships storeApp 0
          (start (failing_at (CallAddTeamMember ''t1'' ''u2'') storage_failure demo_store))) =
     Some storage_failure \<and>
   trace (snd (CreateDefaultMemberships storeApp 0
          (start (failing_at (CallAddTeamMember ''t1'' ''u2'') storage_failure demo_store)))) =
     [Call (CallTeamMembersToAdd 0), Call (CallAddTeamMember ''t1'' ''u1''),
      added_teammember ''u1'' ''t1'', Call (CallAddTeamMember ''t1'' ''u2'')] \<and>
   st_TeamMembers (failing_at (CallAddTeamMember ''t1'' ''u2'') storage_failure demo_store)
     (''t1'', ''u1'') = None \<and>
   st_TeamMembers (world (snd (CreateDefaultMemberships storeApp 0
          (start (failing_at (CallAddTeamMember ''t1'' ''u2'') storage_failure demo_store)))))
     (''t1'', ''u1'') = Some False"
proof -
  let ?w = "failing_at (CallAddTeamMember ''t1'' ''u2'') storage_failure demo_store"
  let ?u1 = "\<lparr>ut_UserID = ''u1'', ut_TeamID = ''t1''\<rparr>"
  let ?u2 = "\<lparr>ut_UserID = ''u2'', ut_TeamID = ''t1''\<rparr>"
  let ?u3 = "\<lparr>ut_UserID = ''u3'', ut_TeamID = ''t1''\<rparr>"
  let ?s0 = "\<lparr>world = ?w, trace = trace (start ?w) @ [Call (CallTeamMembersToAdd 0)]\<rparr>"
  let ?s1 = "snd (teamMembersLoop storeApp [?u1] ?s0)"
  have q: "TeamMembersToAdd storeApp 0 (world (start ?w)) = (Inr ([?u1] @ ?u2 # [?u3]), ?w)"
    by (simp add: run_simps)
  have b: "teamMembersLoop storeApp [?u1] ?s0 = (None, ?s1)"
    by (rule result_None) (simp add: run_simps)
  have f: "AddTeamMember storeApp (ut_TeamID ?u2) (ut_UserID ?u2) (world ?s1) =
             (Some storage_failure, world ?s1)"
    by (simp add: run_simps)
  have w1: "st_TeamMembers (world ?s1) (''t1'', ''u1'') = Some False"
    by (simp add: run_simps)
  show ?thesis
    using team_add_failure_aborts [OF q b f] w1
    by (simp add: team_addition_def start_def) (simp add: run_simps)
qed

text \<open>
  C6. For a syncable type that is neither Team nor Channel the method writes no
  role: the world is the one the permitted-admins query left and the trace holds no
  role update. It returns the error \<^verbatim>\<open>groups.unsupported_syncable_type\<close> when
  the query succeeds, and the query's error when the query fails.
\<close>

theorem unsupported_type_no_writes:
  assumes "syncableType \<noteq> GroupSyncableTypeTeam" and "syncableType \<noteq> GroupSyncableTypeChannel"
  shows "world (snd (SyncSyncableRoles a syncableID syncableType s)) =
           snd (PermittedSyncableAdmins a syncableID syncableType (world s)) \<and>
         (\<exists>evs. trace (snd (SyncSyncableRoles a syncableID syncableType s)) = trace s @ evs \<and>
                filter is_role_update evs = []) \<and>
         (case fst (PermittedSyncableAdmins a syncableID syncableType (world s)) of
            Inl err \<Rightarrow> fst (SyncSyncableRoles a syncableID syncableType s) = Some err
          | Inr admins \<Rightarrow>
              fst (SyncSyncableRoles a syncableID syncableType s) =
                Some (unsupported_syncable_type syncableType) \<and>
              er_Id (unsupported_syncable_type syncableType) = ''groups.unsupported_syncable_type'')"
proof -
  have none: "updateFunc a syncableType = None"
    using assms by (cases syncableType) (simp_all add: updateFunc_def)
  show ?thesis
    by (auto simp: SyncSyncableRoles_def none invoke_def emit_def Let_def
          permitted_admins_entry_def unsupported_syncable_type_def NewAppError_def
        split: prod.splits sum.splits)
qed

theorem unsupported_type_no_writes_witness:
  "world (snd (SyncSyncableRoles storeApp ''g1'' (GroupSyncableTypeOther ''Group'')
                 (start demo_store))) = demo_store \<and>
   fst (SyncSyncableRoles storeApp ''g1'' (GroupSyncableTypeOther ''Group'') (start demo_store)) =
     Some (unsupported_syncable_type (GroupSyncableTypeOther ''Group''))"
proof -
  have t: "GroupSyncableTypeOther ''Group'' \<noteq> GroupSyncableTypeTeam"
    and c: "GroupSyncableTypeOther ''Group'' \<noteq> GroupSyncableTypeChannel"
    by simp_all
  have q: "PermittedSyncableAdmins storeApp ''g1'' (GroupSyncableTypeOther ''Group'')
             (world (start demo_store)) = (Inr [''u2''], demo_store)"
    by (simp add: run_simps)
  show ?thesis
    using unsupported_type_no_writes [OF t c, of storeApp "''g1''" "start demo_store"]
    unfolding q by simp
qed

text \<open>
  With an unsupported type and a failing permitted-admins query, the error returned
  is the query's, not \<^verbatim>\<open>groups.unsupported_syncable_type\<close>.
\<close>

theorem unsupported_type_query_error_counterexample:
  "fst (SyncSyncableRoles storeApp ''g1'' (GroupSyncableTypeOther ''Group'')
          (start (failing_at (CallPermittedSyncableAdmins ''g1'' (GroupSyncableTypeOther ''Group''))
                    storage_failure demo_store))) = Some storage_failure \<and>
   er_Id storage_failure \<noteq> ''groups.unsupported_syncable_type'' \<and>
   Some storage_failure \<noteq> Some (unsupported_syncable_type (GroupSyncableTypeOther ''Group''))"
  by (simp add: SyncSyncableRoles_def run_simps unsupported_syncable_type_def)

text \<open>
  C7. With a supported syncable type and a successful permitted-admins query: if the
  first bulk update (equals mode, true) fails, its error is returned, the second
  update is not called and the world is the one the first update left; if it
  succeeds, the result of the method is the result of the second update (not-equals
  mode, false).
\<close>

theorem role_updates_abort_without_revert:
  assumes permitted: "PermittedSyncableAdmins a syncableID syncableType (world s) = (Inr admins, w1)"
    and supported: "updateFunc a syncableType = Some (recorded, update)"
    and first: "update syncableID admins Equals True w1 = (r1, w2)"
  shows "SyncSyncableRoles a syncableID syncableType s =
           (case r1 of
              Some err \<Rightarrow>
                (Some err,
                 \<lparr>world = w2,
                  trace = trace s @
                    [Call (CallPermittedSyncableAdmins syncableID syncableType),
                     permitted_admins_entry syncableID syncableType admins,
                     Call (recorded syncableID admins Equals True)]\<rparr>)
            | None \<Rightarrow>
                (fst (update syncableID admins NotEquals False w2),
                 \<lparr>world = snd (update syncableID admins NotEquals False w2),
                  trace = trace s @
                    [Call (CallPermittedSyncableAdmins syncableID syncableType),
                     permitted_admins_entry syncableID syncableType admins,
                     Call (recorded syncableID admins Equals True),
                     Call (recorded syncableID admins NotEquals False)]\<rparr>))"
  using assms
  by (auto simp: SyncSyncableRoles_def invoke_def emit_def Let_def split: prod.splits option.splits)

theorem role_updates_abort_without_revert_witness:
  "SyncSyncableRoles storeApp ''t1'' GroupSyncableTypeTeam
     (start (failing_at (CallTeamUpdateMembersRole ''t1'' [''u2''] Equals True)
               storage_failure demo_store)) =
     (Some storage_failure,
      \<lparr>world = failing_at (CallTeamUpdateMembersRole ''t1'' [''u2''] Equals True)
                 storage_failure demo_store,
       trace =
         [Call (CallPermittedSyncableAdmins ''t1'' GroupSyncableTypeTeam),
          permitted_admins_entry ''t1'' GroupSyncableTypeTeam [''u2''],
          Call (CallTeamUpdateMembersRole ''t1'' [''u2''] Equals True)]\<rparr>)"
proof -
  let ?w = "failing_at (CallTeamUpdateMembersRole ''t1'' [''u2''] Equals True)
              storage_failure demo_store"
  have permitted:
    "PermittedSyncableAdmins storeApp ''t1'' GroupSyncableTypeTeam (world (start ?w)) =
       (Inr [''u2''], ?w)"
    by (simp add: run_simps)
  have supported:
    "updateFunc storeApp GroupSyncableTypeTeam =
       Some (CallTeamUpdateMembersRole, Team_UpdateMembersRole storeApp)"
    by (simp add: updateFunc_def)
  have first:
    "Team_UpdateMembersRole storeApp ''t1'' [''u2''] Equals True ?w = (Some storage_failure, ?w)"
    by (simp add: run_simps)
  show ?thesis
    using role_updates_abort_without_revert
      [where a = storeApp and recorded = CallTeamUpdateMembersRole
         and update = "Team_UpdateMembersRole storeApp"
         and syncableType = GroupSyncableTypeTeam,
       OF permitted supported first]
    by (simp add: start_def)
qed

text \<open>
  C8. On the store of the specification, running \<^verbatim>\<open>CreateDefaultMemberships\<close>
  a second time with the same cursor, on the state the first run left, changes no
  membership (the store is the one the first run left) and returns what the first run
  returned; after a first run without error the second returns no error.
\<close>

theorem additions_idempotent:
  "world (snd (CreateDefaultMemberships storeApp since
                 (snd (CreateDefaultMemberships storeApp since s)))) =
     world (snd (CreateDefaultMemberships storeApp since s)) \<and>
   fst (CreateDefaultMemberships storeApp since
          (snd (CreateDefaultMemberships storeApp since s))) =
     fst (CreateDefaultMemberships storeApp since s) \<and>
   (fst (CreateDefaultMemberships storeApp since s) = None \<longrightarrow>
      fst (CreateDefaultMemberships storeApp since
             (snd (CreateDefaultMemberships storeApp since s))) = None)"
  using CreateDefaultMemberships_again
    [of since s "fst (CreateDefaultMemberships storeApp since s)"
       "snd (CreateDefaultMemberships storeApp since s)"
       "snd (CreateDefaultMemberships storeApp since s)"]
  by simp

theorem additions_idempotent_witness:
  "fst (CreateDefaultMemberships storeApp 0 (start demo_store)) = None \<and>
   st_TeamMembers demo_store (''t1'', ''u1'') = None \<and>
   st_TeamMembers (world (snd (CreateDefaultMemberships storeApp 0 (start demo_store))))
     (''t1'', ''u1'') = Some False \<and>
   st_ChannelMembers (world (snd (CreateDefaultMemberships storeApp 0 (start demo_store))))
     (''c1'', ''u4'') = Some False \<and>
   fst (CreateDefaultMemberships storeApp 0
          (snd (CreateDefaultMemberships storeApp 0 (start demo_store)))) = None \<and>
   world (snd (CreateDefaultMemberships storeApp 0
                 (snd (CreateDefaultMemberships storeApp 0 (start demo_store))))) =
     world (snd (CreateDefaultMemberships storeApp 0 (start demo_store)))"
proof -
  let ?run = "CreateDefaultMemberships storeApp 0 (start demo_store)"
  have ok: "fst ?run = None"
    by (simp add: CreateDefaultMemberships_def run_simps channelMemberBody_def
          teamMembershipFirst_def firstAddUserToTeam_def addUserToChannel_def)
  have before: "st_TeamMembers demo_store (''t1'', ''u1'') = None"
    by (simp add: demo_store_def)
  have after: "st_TeamMembers (world (snd ?run)) (''t1'', ''u1'') = Some False"
    "st_ChannelMembers (world (snd ?run)) (''c1'', ''u4'') = Some False"
    by (simp_all add: CreateDefaultMemberships_def run_simps channelMemberBody_def
          teamMembershipFirst_def firstAddUserToTeam_def addUserToChannel_def)
  show ?thesis
    using additions_idempotent [of 0 "start demo_store"] ok before after by simp
qed

text \<open>
  C9. The entry \<^verbatim>\<open>added channelmember\<close> is written by the statement after the
  \<^verbatim>\<open>if err != nil\<close> block, which the tolerated conflict falls through to. On
  the store of the specification with \<^verbatim>\<open>AddChannelMember\<close> failing for user
  \<open>u4\<close> and channel \<open>c1\<close> with that conflict, the method returns no error, logs
  \<^verbatim>\<open>Not adding user to channel because they have already left the team\<close> and
  then \<^verbatim>\<open>added channelmember\<close> for the same pair, and \<open>u4\<close> is not a member of
  \<open>c1\<close> afterwards.
\<close>

theorem added_channelmember_logged_after_conflict:
  "AddChannelMember storeApp ''u4'' c1 [] []
     (failing_at (CallAddChannelMember ''u4'' c1 [] []) left_team_conflict demo_store) =
     (Some left_team_conflict,
      failing_at (CallAddChannelMember ''u4'' c1 [] []) left_team_conflict demo_store) \<and>
   fst (CreateDefaultMemberships storeApp 0
          (start (failing_at (CallAddChannelMember ''u4'' c1 [] []) left_team_conflict demo_store))) =
     None \<and>
   trace (snd (CreateDefaultMemberships storeApp 0
          (start (failing_at (CallAddChannelMember ''u4'' c1 [] []) left_team_conflict
                    demo_store)))) =
     [Call (CallTeamMembersToAdd 0),
      Call (CallAddTeamMember ''t1'' ''u1''), added_teammember ''u1'' ''t1'',
      Call (CallAddTeamMember ''t1'' ''u2''), added_teammember ''u2'' ''t1'',
      Call (CallAddTeamMember ''t1'' ''u3''), added_teammember ''u3'' ''t1'',
      Call (CallChannelMembersToAdd 0),
      Call (CallGetChannel ''c1''), Call (CallGetTeamMember ''t1'' ''u4''),
      Call (CallAddTeamMember ''t1'' ''u4''), added_teammember ''u4'' ''t1'',
      Call (CallAddChannelMember ''u4'' c1 [] []),
      not_adding_user ''u4'' ''c1'', added_channelmember ''u4'' ''c1'',
      Call (CallGetChannel ''c1''), Call (CallGetTeamMember ''t1'' ''u1''),
      Call (CallAddChannelMember ''u1'' c1 [] []), added_channelmember ''u1'' ''c1''] \<and>
   st_ChannelMembers
     (world (snd (CreateDefaultMemberships storeApp 0
          (start (failing_at (CallAddChannelMember ''u4'' c1 [] []) left_team_conflict
                    demo_store)))))
     (''c1'', ''u4'') = None"
  by (simp add: CreateDefaultMemberships_def run_simps channelMemberBody_def
        teamMembershipFirst_def firstAddUserToTeam_def addUserToChannel_def)

text \<open>
  C10. For a syncable type that is neither Team nor Channel the permitted-admins
  query still runs first: if it fails, its error is what the method returns; if it
  succeeds, its result is logged and only then the unsupported type is reported.
\<close>

theorem unsupported_type_after_query:
  assumes "updateFunc a syncableType = None"
  shows "SyncSyncableRoles a syncableID syncableType s =
           (case PermittedSyncableAdmins a syncableID syncableType (world s) of
              (Inl err, w1) \<Rightarrow>
                (Some err,
                 \<lparr>world = w1,
                  trace = trace s @ [Call (CallPermittedSyncableAdmins syncableID syncableType)]\<rparr>)
            | (Inr admins, w1) \<Rightarrow>
                (Some (unsupported_syncable_type syncableType),
                 \<lparr>world = w1,
                  trace = trace s @
                    [Call (CallPermittedSyncableAdmins syncableID syncableType),
                     permitted_admins_entry syncableID syncableType admins]\<rparr>))"
  using assms
  by (auto simp: SyncSyncableRoles_def invoke_def emit_def Let_def split: prod.splits sum.splits)

theorem unsupported_type_after_query_witness:
  "SyncSyncableRoles storeApp ''g1'' (GroupSyncableTypeOther ''Group'') (start demo_store) =
     (Some (unsupported_syncable_type (GroupSyncableTypeOther ''Group'')),
      \<lparr>world = demo_store,
       trace =
         [Call (CallPermittedSyncableAdmins ''g1'' (GroupSyncableTypeOther ''Group'')),
          permitted_admins_entry ''g1'' (GroupSyncableTypeOther ''Group'') [''u2'']]\<rparr>)"
proof -
  have none: "updateFunc storeApp (GroupSyncableTypeOther ''Group'') = None"
    by (simp add: updateFunc_def)
  have q: "PermittedSyncableAdmins storeApp ''g1'' (GroupSyncableTypeOther ''Group'')
             (world (start demo_store)) = (Inr [''u2''], demo_store)"
    by (simp add: run_simps)
  show ?thesis
    using unsupported_type_after_query [OF none, of "''g1''" "start demo_store"]
    unfolding q by (simp add: start_def)
qed

end
